theory Spec2Isabelle
  imports Main
begin

section \<open>Beta-reader access and feedback workflow (routes/readers.js)\<close>

text \<open>
  The reader router is modelled by explicit state passing over the relational store it
  talks to. Each table is a list of rows in insertion order; every handler takes the
  request's clock reading \<open>now\<close> (the value of \<^verbatim>\<open>new Date()\<close> and of SQL
  \<^verbatim>\<open>NOW()\<close> during the request) and returns its HTTP response together with the
  store it leaves behind. Requests are taken well-typed for the columns they write
  (chapter ids are strings, \<^verbatim>\<open>chapters\<close> and \<^verbatim>\<open>readers\<close> are arrays,
  \<^verbatim>\<open>expiresAt\<close> is a time). Nullable text columns are \<open>option\<close>s.

  Of the schema, the model keeps the UNIQUE constraint on \<open>access_token\<close> (an INSERT that
  violates it fails), the column types that refuse a value of the request (VARCHAR(255),
  UUID, INTEGER) and the BEFORE UPDATE triggers that stamp \<open>updated_at\<close>; ids are
  drawn from a counter. A statement the store refuses raises in the handler, which answers
  500 from its \<^verbatim>\<open>catch\<close>; the refused statement writes nothing. The collaborators of the router are parameters of the handlers:
  the email service \<open>send\<close>, the random source behind \<^verbatim>\<open>generateAccessToken\<close> and
  the date formatter.
\<close>

subsection \<open>Tables (migrations 000, 015, 016 and the reader-circles migration)\<close>

type_synonym uuid = nat
type_synonym timestamp = int

datatype status = Pending | Accepted | Expired | Revoked

datatype marker_type = Note | Question | Suggestion | Highlight | Revision

record user =
  u_user_id :: uuid
  u_first_name :: "string option"
  u_last_name :: "string option"
  u_username :: "string option"

text \<open>An element of \<^verbatim>\<open>project_data.chapters\<close>: its id, its name and the rest of the
  object (scenes and so on), which the router never inspects.\<close>

record chapter_doc =
  ch_id :: string
  ch_name :: "string option"
  ch_rest :: string

text \<open>\<open>p_chapters\<close> is \<^verbatim>\<open>project_data.chapters\<close>; \<open>None\<close> when the document has no
  such key.\<close>

record project =
  p_project_id :: uuid
  p_user_id :: uuid
  p_title :: string
  p_chapters :: "chapter_doc list option"

record invitation =
  ri_id :: uuid
  ri_project_id :: uuid
  ri_user_id :: uuid
  ri_access_token :: string
  ri_chapters_accessible :: "string list"
  ri_invitation_message :: "string option"
  ri_reader_name :: "string option"
  ri_reader_email :: "string option"
  ri_status :: status
  ri_accepted_at :: "timestamp option"
  ri_expires_at :: timestamp
  ri_created_at :: timestamp
  ri_updated_at :: timestamp
  ri_last_activity_at :: "timestamp option"
  ri_circle_name :: string
  ri_archived :: bool

record session =
  rs_id :: uuid
  rs_invitation_id :: uuid
  rs_last_chapter_id :: "string option"
  rs_completion_percentage :: "int option"
  rs_created_at :: timestamp
  rs_last_activity_at :: timestamp
  rs_notes :: "string option"

record marker =
  rm_id :: uuid
  rm_invitation_id :: uuid
  rm_project_id :: uuid
  rm_chapter_id :: string
  rm_scene_id :: string
  rm_marker_id :: string
  rm_marker_type :: marker_type
  rm_marker_text :: "string option"
  rm_highlighted_text :: "string option"
  rm_position_data :: "string option"
  rm_created_at :: timestamp
  rm_updated_at :: timestamp
  rm_imported_to_project :: bool
  rm_imported_at :: "timestamp option"

text \<open>The argument object of \<^verbatim>\<open>sendReaderInvitation\<close>.\<close>

record email_request =
  em_readerEmail :: "string option"
  em_readerName :: "string option"
  em_projectTitle :: string
  em_authorName :: "string option"
  em_accessToken :: string
  em_expiresAt :: timestamp
  em_invitationMessage :: "string option"
  em_chapterNames :: "string list"

text \<open>The store: the five tables the router reads and writes, the counter behind
  \<^verbatim>\<open>gen_random_uuid()\<close>, and the log of requests handed to the email service.\<close>

record store =
  users :: "user list"
  projects :: "project list"
  reader_invitations :: "invitation list"
  reader_sessions :: "session list"
  reader_markers :: "marker list"
  uuid_seq :: uuid
  outbox :: "email_request list"

text \<open>One constructor per error response of the router; \<open>http_status\<close> gives the code
  sent with it.\<close>

datatype error =
    InvalidAccessToken
  | AccessTokenExpired
  | AccessRevoked
  | AccessExpiredOrRevoked
  | ProjectNotFound
  | MaxActiveReaders nat
  | InvitationNotFound
  | CannotResendExpired
  | CannotResendRevoked
  | FailedToSendEmail string
  | CircleNotFound
  | MarkerNotFound
  | ServerError string

fun http_status :: "error \<Rightarrow> nat" where
  "http_status InvalidAccessToken = 404"
| "http_status AccessTokenExpired = 403"
| "http_status AccessRevoked = 403"
| "http_status AccessExpiredOrRevoked = 403"
| "http_status ProjectNotFound = 404"
| "http_status (MaxActiveReaders n) = 400"
| "http_status InvitationNotFound = 404"
| "http_status CannotResendExpired = 400"
| "http_status CannotResendRevoked = 400"
| "http_status (FailedToSendEmail m) = 500"
| "http_status CircleNotFound = 404"
| "http_status MarkerNotFound = 404"
| "http_status (ServerError m) = 500"

subsection \<open>Column types of the store\<close>

text \<open>Assignment to a \<^verbatim>\<open>VARCHAR(n)\<close> column: a value of at most \<open>n\<close> characters is
  stored as it is; a longer one is refused, unless all characters beyond the \<open>n\<close>-th are
  spaces, in which case it is cut to \<open>n\<close> characters.\<close>

definition varchar :: "nat \<Rightarrow> string \<Rightarrow> string option" where
  "varchar n v =
     (if length v \<le> n then Some v
      else if list_all (\<lambda>c. c = CHR '' '') (drop n v) then Some (take n v)
      else None)"

text \<open>The same for a nullable column: \<open>None\<close> is a refusal, \<open>Some None\<close> is NULL.\<close>

fun varchar_null :: "nat \<Rightarrow> string option \<Rightarrow> string option option" where
  "varchar_null n None = Some None"
| "varchar_null n (Some v) = map_option Some (varchar n v)"

text \<open>Input of a value of type \<^verbatim>\<open>UUID\<close>: an optional opening brace, sixteen bytes of
  two hexadecimal digits each, a hyphen being allowed after every second byte but the
  last, the closing brace if there was an opening one, and nothing else. The value is
  stored in the standard form, lower case, grouped 8-4-4-4-12.\<close>

definition isxdigit :: "char \<Rightarrow> bool" where
  "isxdigit c \<longleftrightarrow> c \<in> set ''0123456789abcdefABCDEF''"

definition hex_lower :: "char \<Rightarrow> char" where
  "hex_lower c =
     (if c = CHR ''A'' then CHR ''a'' else if c = CHR ''B'' then CHR ''b''
      else if c = CHR ''C'' then CHR ''c'' else if c = CHR ''D'' then CHR ''d''
      else if c = CHR ''E'' then CHR ''e'' else if c = CHR ''F'' then CHR ''f'' else c)"

text \<open>\<open>uuid_bytes n src\<close> reads the last \<open>n\<close> of the sixteen bytes and returns their
  digits and the unread rest.\<close>

fun uuid_bytes :: "nat \<Rightarrow> string \<Rightarrow> (string \<times> string) option" where
  "uuid_bytes 0 src = Some ([], src)"
| "uuid_bytes (Suc n) (a # b # rest) =
     (if isxdigit a \<and> isxdigit b then
        (case uuid_bytes n
                (case rest of
                   [] \<Rightarrow> []
                 | c # rest' \<Rightarrow> if c = CHR ''-'' \<and> odd (15 - n) \<and> 0 < n then rest' else rest) of
           None \<Rightarrow> None
         | Some (digits, unread) \<Rightarrow> Some (hex_lower a # hex_lower b # digits, unread))
      else None)"
| "uuid_bytes (Suc n) src = None"

definition uuid_in :: "string \<Rightarrow> string option" where
  "uuid_in v =
     (let braces = (v \<noteq> [] \<and> hd v = CHR ''{'')
      in case uuid_bytes 16 (if braces then tl v else v) of
           None \<Rightarrow> None
         | Some (d, unread) \<Rightarrow>
             if unread = (if braces then ''}'' else [])
             then Some (take 8 d @ ''-'' @ take 4 (drop 8 d) @ ''-'' @ take 4 (drop 12 d) @ ''-'' @
                        take 4 (drop 16 d) @ ''-'' @ drop 20 d)
             else None)"

fun uuid_null :: "string option \<Rightarrow> string option option" where
  "uuid_null None = Some None"
| "uuid_null (Some v) = map_option Some (uuid_in v)"

text \<open>A value of type \<^verbatim>\<open>INTEGER\<close> is a 32-bit signed integer (or NULL).\<close>

fun int4_null :: "int option \<Rightarrow> bool" where
  "int4_null None = True"
| "int4_null (Some v) = (- 2147483648 \<le> v \<and> v \<le> 2147483647)"

subsection \<open>Statements shared by the handlers\<close>

text \<open>\<^verbatim>\<open>UPDATE reader_invitations SET ... WHERE ...\<close>: every row satisfying the
  condition is rewritten, and the table's BEFORE UPDATE trigger stamps \<open>updated_at\<close>.\<close>

definition update_invitations ::
  "(invitation \<Rightarrow> bool) \<Rightarrow> (invitation \<Rightarrow> invitation) \<Rightarrow> timestamp \<Rightarrow> store \<Rightarrow> store" where
  "update_invitations cond set_cols now s =
     s\<lparr>reader_invitations :=
         map (\<lambda>ri. if cond ri then (set_cols ri)\<lparr>ri_updated_at := now\<rparr> else ri)
           (reader_invitations s)\<rparr>"

text \<open>\<^verbatim>\<open>UPDATE reader_invitations SET last_activity_at = NOW() WHERE id = $1\<close>\<close>

definition touch_last_activity :: "uuid \<Rightarrow> timestamp \<Rightarrow> store \<Rightarrow> store" where
  "touch_last_activity inv_id now s =
     update_invitations (\<lambda>ri. ri_id ri = inv_id)
       (\<lambda>ri. ri\<lparr>ri_last_activity_at := Some now\<rparr>) now s"

text \<open>JavaScript truthiness of a nullable string: \<^verbatim>\<open>null\<close> and \<^verbatim>\<open>''\<close> are falsy.\<close>

fun truthy :: "string option \<Rightarrow> bool" where
  "truthy None = False"
| "truthy (Some v) = (v \<noteq> [])"

text \<open>A nullable string inside a template literal.\<close>

fun interpolate :: "string option \<Rightarrow> string" where
  "interpolate None = ''null''"
| "interpolate (Some v) = v"

text \<open>\<^verbatim>\<open>v || d\<close> on a nullable string.\<close>

fun or_default :: "string option \<Rightarrow> string \<Rightarrow> string" where
  "or_default None d = d"
| "or_default (Some v) d = (if v = [] then d else v)"

text \<open>\<^verbatim>\<open>first_name && last_name ? `${first_name} ${last_name}` : username\<close>\<close>

definition author_name :: "user \<Rightarrow> string option" where
  "author_name u =
     (if truthy (u_first_name u) \<and> truthy (u_last_name u)
      then Some (interpolate (u_first_name u) @ '' '' @ interpolate (u_last_name u))
      else u_username u)"

text \<open>\<^verbatim>\<open>(project_data.chapters || []).filter(ch => chapters.includes(ch.id))
  .map(ch => ch.name || 'Untitled Chapter')\<close>\<close>

definition chapter_names :: "chapter_doc list option \<Rightarrow> string list \<Rightarrow> string list" where
  "chapter_names project_chapters accessible =
     map (\<lambda>ch. or_default (ch_name ch) ''Untitled Chapter'')
       (filter (\<lambda>ch. ch_id ch \<in> set accessible)
          (case project_chapters of None \<Rightarrow> [] | Some chs \<Rightarrow> chs))"

subsection \<open>GET /access/:token\<close>

text \<open>The invitation row joined with its project, as the first query of the handler
  selects it.\<close>

definition select_access :: "store \<Rightarrow> string \<Rightarrow> (invitation \<times> project) list" where
  "select_access s token =
     concat (map (\<lambda>ri. map (\<lambda>p. (ri, p))
                   (filter (\<lambda>p. p_project_id p = ri_project_id ri) (projects s)))
              (filter (\<lambda>ri. ri_access_token ri = token) (reader_invitations s)))"

record numbered_chapter =
  nc_chapter :: chapter_doc
  chapterNumber :: nat

text \<open>\<^verbatim>\<open>projectData.chapters?.map((ch, index) => ({ ...ch, chapterNumber: index + 1 }))
  ?.filter(ch => accessibleChapters.includes(ch.id))\<close>\<close>

definition filteredChapters ::
  "chapter_doc list option \<Rightarrow> string list \<Rightarrow> numbered_chapter list option" where
  "filteredChapters project_chapters accessibleChapters =
     map_option
       (\<lambda>chs. filter (\<lambda>ch. ch_id (nc_chapter ch) \<in> set accessibleChapters)
                (map (\<lambda>(index, ch). \<lparr>nc_chapter = ch, chapterNumber = index + 1\<rparr>)
                   (enumerate 0 chs)))
       project_chapters"

record access_invitation =
  ai_id :: uuid
  ai_projectTitle :: string
  ai_readerName :: "string option"
  ai_message :: "string option"
  ai_expiresAt :: timestamp
  ai_status :: status

record access_view =
  av_invitation :: access_invitation
  av_chapters :: "numbered_chapter list"
  av_session :: session

text \<open>\<^verbatim>\<open>INSERT INTO reader_sessions (invitation_id) VALUES ($1) RETURNING *\<close>, with the
  column defaults of the schema.\<close>

definition insert_session :: "uuid \<Rightarrow> timestamp \<Rightarrow> store \<Rightarrow> session \<times> store" where
  "insert_session inv_id now s =
     (let row = \<lparr>rs_id = uuid_seq s, rs_invitation_id = inv_id, rs_last_chapter_id = None,
                 rs_completion_percentage = Some 0, rs_created_at = now,
                 rs_last_activity_at = now, rs_notes = Some []\<rparr>
      in (row, s\<lparr>reader_sessions := reader_sessions s @ [row], uuid_seq := uuid_seq s + 1\<rparr>))"

definition resolveAccess :: "timestamp \<Rightarrow> string \<Rightarrow> store \<Rightarrow> (error + access_view) \<times> store" where
  "resolveAccess now token s =
     (case select_access s token of
        [] \<Rightarrow> (Inl InvalidAccessToken, s)
      | (inv_row, p) # _ \<Rightarrow>
          if ri_expires_at inv_row < now then
            (Inl AccessTokenExpired,
             update_invitations (\<lambda>ri. ri_id ri = ri_id inv_row)
               (\<lambda>ri. ri\<lparr>ri_status := Expired\<rparr>) now s)
          else if ri_status inv_row = Revoked then (Inl AccessRevoked, s)
          else
            let s1 = (if ri_status inv_row = Pending
                      then update_invitations (\<lambda>ri. ri_id ri = ri_id inv_row)
                             (\<lambda>ri. ri\<lparr>ri_status := Accepted, ri_accepted_at := Some now\<rparr>) now s
                      else s);
                (sess, s2) =
                   (case filter (\<lambda>rs. rs_invitation_id rs = ri_id inv_row) (reader_sessions s1) of
                      [] \<Rightarrow> insert_session (ri_id inv_row) now s1
                    | rs # _ \<Rightarrow> (rs, s1))
            in (Inr \<lparr>av_invitation =
                       \<lparr>ai_id = ri_id inv_row, ai_projectTitle = p_title p,
                        ai_readerName = ri_reader_name inv_row,
                        ai_message = ri_invitation_message inv_row,
                        ai_expiresAt = ri_expires_at inv_row, ai_status = ri_status inv_row\<rparr>,
                     av_chapters =
                       (case filteredChapters (p_chapters p) (ri_chapters_accessible inv_row) of
                          None \<Rightarrow> [] | Some chs \<Rightarrow> chs),
                     av_session = sess\<rparr>, s2))"

text \<open>The status a later lookup by token reads.\<close>

definition status_of_token :: "store \<Rightarrow> string \<Rightarrow> status option" where
  "status_of_token s token =
     (case select_access s token of [] \<Rightarrow> None | (inv_row, p) # _ \<Rightarrow> Some (ri_status inv_row))"

subsection \<open>POST /invitations\<close>

record reader =
  rd_name :: "string option"
  rd_email :: "string option"

record email_error =
  ee_reader :: "string option"
  ee_error :: string

record invitations_created =
  ic_invitations :: "invitation list"
  ic_emailErrors :: "email_error list option"

text \<open>\<^verbatim>\<open>INSERT INTO reader_invitations ... RETURNING ...\<close>. The statement fails
  (\<open>None\<close>) when \<open>reader_name\<close>, \<open>reader_email\<close>, \<open>circle_name\<close> or \<open>access_token\<close>
  does not fit its VARCHAR(255) column, or when the token is already stored (the column is
  UNIQUE). The row's id is drawn by the store.\<close>

definition insert_invitation :: "invitation \<Rightarrow> store \<Rightarrow> (invitation \<times> store) option" where
  "insert_invitation row s =
     (case (varchar_null 255 (ri_reader_name row), varchar_null 255 (ri_reader_email row),
            varchar 255 (ri_circle_name row), varchar 255 (ri_access_token row)) of
        (Some reader_name, Some reader_email, Some circle_name, Some access_token) \<Rightarrow>
          if access_token \<in> set (map ri_access_token (reader_invitations s)) then None
          else let stored = row\<lparr>ri_id := uuid_seq s, ri_reader_name := reader_name,
                                 ri_reader_email := reader_email,
                                 ri_circle_name := circle_name,
                                 ri_access_token := access_token\<rparr>
               in Some (stored, s\<lparr>reader_invitations := reader_invitations s @ [stored],
                                 uuid_seq := uuid_seq s + 1\<rparr>)
      | _ \<Rightarrow> None)"

text \<open>What stays the same for every reader of one request.\<close>

record invite_ctx =
  cx_projectId :: uuid
  cx_user_id :: uuid
  cx_chapters :: "string list"
  cx_invitationMessage :: "string option"
  cx_expiresAt :: timestamp
  cx_circle_name :: string
  cx_projectTitle :: string
  cx_authorName :: "string option"
  cx_chapterNames :: "string list"
  cx_now :: timestamp

text \<open>The VALUES of the INSERT for one reader (the id is drawn by the store; status,
  timestamps and the archived flag are the column defaults).\<close>

definition new_invitation :: "invite_ctx \<Rightarrow> string \<Rightarrow> reader \<Rightarrow> invitation" where
  "new_invitation cx accessToken rd =
     \<lparr>ri_id = 0, ri_project_id = cx_projectId cx, ri_user_id = cx_user_id cx,
      ri_access_token = accessToken, ri_chapters_accessible = cx_chapters cx,
      ri_invitation_message = cx_invitationMessage cx,
      ri_reader_name = rd_name rd, ri_reader_email = rd_email rd,
      ri_status = Pending, ri_accepted_at = None,
      ri_expires_at = cx_expiresAt cx, ri_created_at = cx_now cx,
      ri_updated_at = cx_now cx, ri_last_activity_at = None,
      ri_circle_name = cx_circle_name cx, ri_archived = False\<rparr>"

text \<open>The argument of \<^verbatim>\<open>sendReaderInvitation\<close> for one reader.\<close>

definition invitation_email :: "invite_ctx \<Rightarrow> string \<Rightarrow> reader \<Rightarrow> email_request" where
  "invitation_email cx accessToken rd =
     \<lparr>em_readerEmail = rd_email rd, em_readerName = rd_name rd,
      em_projectTitle = cx_projectTitle cx, em_authorName = cx_authorName cx,
      em_accessToken = accessToken, em_expiresAt = cx_expiresAt cx,
      em_invitationMessage = cx_invitationMessage cx,
      em_chapterNames = cx_chapterNames cx\<rparr>"

text \<open>The loop \<^verbatim>\<open>for (const reader of readers)\<close>. \<open>send\<close> is
  \<^verbatim>\<open>sendReaderInvitation\<close> (\<open>None\<close> when it resolves, \<open>Some message\<close> when it
  throws); \<open>generateAccessToken k\<close> is the token drawn for the \<open>k\<close>-th reader. A failed
  insert is rethrown and leaves the rows inserted before it in place.\<close>

fun invite_readers ::
  "(email_request \<Rightarrow> string option) \<Rightarrow> (nat \<Rightarrow> string) \<Rightarrow> invite_ctx \<Rightarrow> reader list \<Rightarrow> nat \<Rightarrow>
   invitation list \<Rightarrow> email_error list \<Rightarrow> store \<Rightarrow>
   (error + invitation list \<times> email_error list) \<times> store" where
  "invite_readers send generateAccessToken cx [] k invitations emailErrors s =
     (Inr (invitations, emailErrors), s)"
| "invite_readers send generateAccessToken cx (rd # rest) k invitations emailErrors s =
     (case insert_invitation (new_invitation cx (generateAccessToken k) rd) s of
        None \<Rightarrow> (Inl (ServerError ''Failed to create invitations''), s)
      | Some (invitation, s1) \<Rightarrow>
          (let req = invitation_email cx (generateAccessToken k) rd;
               s2 = s1\<lparr>outbox := outbox s1 @ [req]\<rparr>
           in case send req of
                None \<Rightarrow>
                  invite_readers send generateAccessToken cx rest (k + 1)
                    (invitations @ [invitation]) emailErrors s2
              | Some message \<Rightarrow>
                  invite_readers send generateAccessToken cx rest (k + 1)
                    (invitations @ [invitation])
                    (emailErrors @ [\<lparr>ee_reader = rd_email rd, ee_error = message\<rparr>]) s2))"

text \<open>\<^verbatim>\<open>SELECT COUNT(*) FROM reader_invitations WHERE project_id = $1
  AND status IN ('pending', 'accepted') AND expires_at > NOW()\<close>\<close>

definition currentActive :: "store \<Rightarrow> uuid \<Rightarrow> timestamp \<Rightarrow> nat" where
  "currentActive s projectId now =
     length (filter (\<lambda>ri. ri_project_id ri = projectId \<and>
                          (ri_status ri = Pending \<or> ri_status ri = Accepted) \<and>
                          now < ri_expires_at ri)
               (reader_invitations s))"

definition projectCheck :: "store \<Rightarrow> uuid \<Rightarrow> uuid \<Rightarrow> project list" where
  "projectCheck s projectId user_id =
     filter (\<lambda>p. p_project_id p = projectId \<and> p_user_id p = user_id) (projects s)"

definition projectDetails :: "store \<Rightarrow> uuid \<Rightarrow> (project \<times> user) list" where
  "projectDetails s projectId =
     concat (map (\<lambda>p. map (\<lambda>u. (p, u)) (filter (\<lambda>u. u_user_id u = p_user_id p) (users s)))
              (filter (\<lambda>p. p_project_id p = projectId) (projects s)))"

text \<open>The values computed before the loop: the project's title, the author's name and the
  names of the invited chapters for the email, and the circle name
  \<^verbatim>\<open>circleName || `Draft Review - ${new Date().toLocaleDateString(...)}`\<close>.\<close>

definition invite_context ::
  "(timestamp \<Rightarrow> string) \<Rightarrow> timestamp \<Rightarrow> uuid \<Rightarrow> uuid \<Rightarrow> string list \<Rightarrow> string option \<Rightarrow>
   timestamp \<Rightarrow> string option \<Rightarrow> project \<Rightarrow> user \<Rightarrow> invite_ctx" where
  "invite_context toLocaleDateString now user_id projectId chapters invitationMessage
       expiresAt circleName p u =
     \<lparr>cx_projectId = projectId, cx_user_id = user_id, cx_chapters = chapters,
      cx_invitationMessage = invitationMessage, cx_expiresAt = expiresAt,
      cx_circle_name = or_default circleName (''Draft Review - '' @ toLocaleDateString now),
      cx_projectTitle = p_title p, cx_authorName = author_name u,
      cx_chapterNames = chapter_names (p_chapters p) chapters, cx_now = now\<rparr>"

text \<open>The handler. The \<^verbatim>\<open>message\<close> string of the 201 response, which only repeats the
  two list lengths, is left out of the response record.\<close>

definition createInvitations ::
  "(email_request \<Rightarrow> string option) \<Rightarrow> (nat \<Rightarrow> string) \<Rightarrow> (timestamp \<Rightarrow> string) \<Rightarrow> timestamp \<Rightarrow>
   uuid \<Rightarrow> uuid \<Rightarrow> string list \<Rightarrow> string option \<Rightarrow> reader list \<Rightarrow> timestamp \<Rightarrow> string option \<Rightarrow>
   store \<Rightarrow> (error + invitations_created) \<times> store" where
  "createInvitations send generateAccessToken toLocaleDateString now user_id
       projectId chapters invitationMessage readers expiresAt circleName s =
     (if projectCheck s projectId user_id = [] then (Inl ProjectNotFound, s)
      else if currentActive s projectId now + length readers > 15
        then (Inl (MaxActiveReaders (currentActive s projectId now)), s)
      else case projectDetails s projectId of
        [] \<Rightarrow> (Inl (ServerError ''Failed to create invitations''), s)
      | (p, u) # _ \<Rightarrow>
          (case invite_readers send generateAccessToken
                  (invite_context toLocaleDateString now user_id projectId chapters
                     invitationMessage expiresAt circleName p u)
                  readers 0 [] [] s of
             (Inl e, s') \<Rightarrow> (Inl e, s')
           | (Inr (invitations, emailErrors), s') \<Rightarrow>
               (Inr \<lparr>ic_invitations = invitations,
                     ic_emailErrors = (if emailErrors = [] then None else Some emailErrors)\<rparr>,
                s')))"

subsection \<open>DELETE /invitations/:invitationId\<close>

definition revokeInvitation :: "timestamp \<Rightarrow> uuid \<Rightarrow> uuid \<Rightarrow> store \<Rightarrow> (error + unit) \<times> store" where
  "revokeInvitation now user_id invitationId s =
     (let cond = (\<lambda>ri. ri_id ri = invitationId \<and> ri_user_id ri = user_id);
          s' = update_invitations cond (\<lambda>ri. ri\<lparr>ri_status := Revoked\<rparr>) now s
      in if filter cond (reader_invitations s) = [] then (Inl InvitationNotFound, s')
         else (Inr (), s'))"

subsection \<open>POST /invitations/:invitationId/resend\<close>

definition select_resend :: "store \<Rightarrow> uuid \<Rightarrow> uuid \<Rightarrow> (invitation \<times> project \<times> user) list" where
  "select_resend s invitationId user_id =
     concat (map (\<lambda>ri.
        concat (map (\<lambda>p. map (\<lambda>u. (ri, p, u))
                      (filter (\<lambda>u. u_user_id u = p_user_id p) (users s)))
                 (filter (\<lambda>p. p_project_id p = ri_project_id ri) (projects s))))
       (filter (\<lambda>ri. ri_id ri = invitationId \<and> ri_user_id ri = user_id)
          (reader_invitations s)))"

definition resendInvitation ::
  "(email_request \<Rightarrow> string option) \<Rightarrow> timestamp \<Rightarrow> uuid \<Rightarrow> uuid \<Rightarrow> store \<Rightarrow> (error + unit) \<times> store" where
  "resendInvitation send now user_id invitationId s =
     (case select_resend s invitationId user_id of
        [] \<Rightarrow> (Inl InvitationNotFound, s)
      | (inv_row, p, u) # _ \<Rightarrow>
          if ri_expires_at inv_row < now then (Inl CannotResendExpired, s)
          else if ri_status inv_row = Revoked then (Inl CannotResendRevoked, s)
          else
            let req = \<lparr>em_readerEmail = ri_reader_email inv_row,
                       em_readerName = ri_reader_name inv_row,
                       em_projectTitle = p_title p, em_authorName = author_name u,
                       em_accessToken = ri_access_token inv_row,
                       em_expiresAt = ri_expires_at inv_row,
                       em_invitationMessage = ri_invitation_message inv_row,
                       em_chapterNames =
                         chapter_names (p_chapters p) (ri_chapters_accessible inv_row)\<rparr>;
                s' = s\<lparr>outbox := outbox s @ [req]\<rparr>
            in (case send req of
                  None \<Rightarrow> (Inr (), s')
                | Some message \<Rightarrow> (Inl (FailedToSendEmail message), s')))"

subsection \<open>PATCH /circles/:projectId/name and /circles/:projectId/archive\<close>

text \<open>The WHERE clause both statements share. The two sides of
  \<^verbatim>\<open>ri.chapters_accessible::jsonb = $4::jsonb\<close> are JSON arrays of strings, which
  jsonb compares element by element, in order.\<close>

definition in_circle :: "store \<Rightarrow> uuid \<Rightarrow> uuid \<Rightarrow> string list \<Rightarrow> invitation \<Rightarrow> bool" where
  "in_circle s user_id projectId chaptersAccessible ri \<longleftrightarrow>
     ri_project_id ri = projectId \<and> ri_user_id ri = user_id \<and>
     (\<exists>p \<in> set (projects s). p_project_id p = ri_project_id ri \<and> p_user_id p = user_id) \<and>
     ri_chapters_accessible ri = chaptersAccessible"

text \<open>\<open>circle_name\<close> is VARCHAR(255): a name the column refuses makes the UPDATE fail,
  and the handler answers 500 with nothing renamed.\<close>

definition renameCircle ::
  "timestamp \<Rightarrow> uuid \<Rightarrow> uuid \<Rightarrow> string list \<Rightarrow> string \<Rightarrow> store \<Rightarrow> (error + nat) \<times> store" where
  "renameCircle now user_id projectId chaptersAccessible circleName s =
     (case varchar 255 circleName of
        None \<Rightarrow> (Inl (ServerError ''Failed to update circle name''), s)
      | Some circle_name \<Rightarrow>
          (let cond = in_circle s user_id projectId chaptersAccessible;
               s' = update_invitations cond (\<lambda>ri. ri\<lparr>ri_circle_name := circle_name\<rparr>) now s;
               updated = length (filter cond (reader_invitations s))
           in if updated = 0 then (Inl CircleNotFound, s') else (Inr updated, s')))"

definition archiveCircle ::
  "timestamp \<Rightarrow> uuid \<Rightarrow> uuid \<Rightarrow> string list \<Rightarrow> bool \<Rightarrow> store \<Rightarrow> (error + nat) \<times> store" where
  "archiveCircle now user_id projectId chaptersAccessible archived s =
     (let cond = in_circle s user_id projectId chaptersAccessible;
          s' = update_invitations cond (\<lambda>ri. ri\<lparr>ri_archived := archived\<rparr>) now s;
          updated = length (filter cond (reader_invitations s))
      in if updated = 0 then (Inl CircleNotFound, s') else (Inr updated, s'))"

subsection \<open>POST /markers, PUT and DELETE /markers/:markerId\<close>

definition by_token :: "store \<Rightarrow> string \<Rightarrow> invitation list" where
  "by_token s accessToken =
     filter (\<lambda>ri. ri_access_token ri = accessToken) (reader_invitations s)"

text \<open>\<open>chapter_id\<close>, \<open>scene_id\<close> and \<open>marker_id\<close> are VARCHAR(255): an id the column
  refuses makes the INSERT fail, and the handler answers 500 with nothing stored.\<close>

definition createMarker ::
  "timestamp \<Rightarrow> string \<Rightarrow> string \<Rightarrow> string \<Rightarrow> string \<Rightarrow> marker_type \<Rightarrow> string option \<Rightarrow>
   string option \<Rightarrow> string option \<Rightarrow> store \<Rightarrow> (error + marker) \<times> store" where
  "createMarker now accessToken chapterId sceneId markerId markerType markerText
       highlightedText positionData s =
     (case by_token s accessToken of
        [] \<Rightarrow> (Inl InvalidAccessToken, s)
      | inv_row # _ \<Rightarrow>
          if ri_status inv_row = Revoked \<or> ri_expires_at inv_row < now
          then (Inl AccessExpiredOrRevoked, s)
          else
            (case (varchar 255 chapterId, varchar 255 sceneId, varchar 255 markerId) of
               (Some chapter_id, Some scene_id, Some marker_id) \<Rightarrow>
                 (let row = \<lparr>rm_id = uuid_seq s, rm_invitation_id = ri_id inv_row,
                             rm_project_id = ri_project_id inv_row, rm_chapter_id = chapter_id,
                             rm_scene_id = scene_id, rm_marker_id = marker_id,
                             rm_marker_type = markerType, rm_marker_text = markerText,
                             rm_highlighted_text = highlightedText,
                             rm_position_data = positionData, rm_created_at = now,
                             rm_updated_at = now, rm_imported_to_project = False,
                             rm_imported_at = None\<rparr>;
                      s1 = s\<lparr>reader_markers := reader_markers s @ [row],
                             uuid_seq := uuid_seq s + 1\<rparr>
                  in (Inr row, touch_last_activity (ri_id inv_row) now s1))
             | _ \<Rightarrow> (Inl (ServerError ''Failed to create marker''), s)))"

text \<open>\<^verbatim>\<open>rm.id = $2 AND rm.invitation_id = ri.id AND ri.access_token = $3\<close>\<close>

definition marker_of_token :: "store \<Rightarrow> uuid \<Rightarrow> string \<Rightarrow> marker \<Rightarrow> bool" where
  "marker_of_token s markerId accessToken rm \<longleftrightarrow>
     rm_id rm = markerId \<and>
     (\<exists>ri \<in> set (reader_invitations s).
        rm_invitation_id rm = ri_id ri \<and> ri_access_token ri = accessToken)"

definition updateMarker ::
  "timestamp \<Rightarrow> uuid \<Rightarrow> string \<Rightarrow> string option \<Rightarrow> store \<Rightarrow> (error + marker) \<times> store" where
  "updateMarker now markerId accessToken markerText s =
     (let cond = marker_of_token s markerId accessToken;
          s' = s\<lparr>reader_markers :=
                   map (\<lambda>rm. if cond rm
                              then rm\<lparr>rm_marker_text := markerText, rm_updated_at := now\<rparr>
                              else rm)
                     (reader_markers s)\<rparr>
      in case filter cond (reader_markers s') of
           [] \<Rightarrow> (Inl MarkerNotFound, s')
         | rm # _ \<Rightarrow> (Inr rm, s'))"

definition deleteMarker :: "uuid \<Rightarrow> string \<Rightarrow> store \<Rightarrow> (error + unit) \<times> store" where
  "deleteMarker markerId accessToken s =
     (let cond = marker_of_token s markerId accessToken;
          s' = s\<lparr>reader_markers := filter (\<lambda>rm. \<not> cond rm) (reader_markers s)\<rparr>
      in if filter cond (reader_markers s) = [] then (Inl MarkerNotFound, s')
         else (Inr (), s'))"

subsection \<open>POST /markers/:markerId/import\<close>

record annotation =
  an_id :: string
  an_type :: marker_type
  an_text :: string
  an_highlightedText :: "string option"
  an_positionData :: "string option"
  an_chapterId :: string
  an_sceneId :: string
  an_isReaderFeedback :: bool
  an_readerName :: "string option"
  an_createdAt :: timestamp

definition select_import :: "store \<Rightarrow> uuid \<Rightarrow> uuid \<Rightarrow> (marker \<times> invitation) list" where
  "select_import s markerId user_id =
     concat (map (\<lambda>rm.
        concat (map (\<lambda>ri. map (\<lambda>p. (rm, ri))
                      (filter (\<lambda>p. p_project_id p = ri_project_id ri \<and> p_user_id p = user_id)
                         (projects s)))
                 (filter (\<lambda>ri. ri_id ri = rm_invitation_id rm) (reader_invitations s))))
       (filter (\<lambda>rm. rm_id rm = markerId) (reader_markers s)))"

text \<open>\<^verbatim>\<open>UPDATE reader_markers SET imported_to_project = true, imported_at = NOW()
  WHERE id = $1\<close>; the table's BEFORE UPDATE trigger stamps \<open>updated_at\<close> as well.\<close>

definition mark_imported :: "uuid \<Rightarrow> timestamp \<Rightarrow> store \<Rightarrow> store" where
  "mark_imported markerId now s =
     s\<lparr>reader_markers :=
         map (\<lambda>rm. if rm_id rm = markerId
                    then rm\<lparr>rm_imported_to_project := True, rm_imported_at := Some now,
                            rm_updated_at := now\<rparr>
                    else rm)
           (reader_markers s)\<rparr>"

definition importMarker :: "timestamp \<Rightarrow> uuid \<Rightarrow> uuid \<Rightarrow> store \<Rightarrow> (error + annotation) \<times> store" where
  "importMarker now user_id markerId s =
     (case select_import s markerId user_id of
        [] \<Rightarrow> (Inl MarkerNotFound, s)
      | (markerData, ri) # _ \<Rightarrow>
          (Inr \<lparr>an_id = rm_marker_id markerData, an_type = rm_marker_type markerData,
                an_text = ''['' @ interpolate (ri_reader_name ri) @ '']'' @ [CHR 0x0A] @
                          interpolate (rm_marker_text markerData),
                an_highlightedText = rm_highlighted_text markerData,
                an_positionData = rm_position_data markerData,
                an_chapterId = rm_chapter_id markerData,
                an_sceneId = rm_scene_id markerData, an_isReaderFeedback = True,
                an_readerName = ri_reader_name ri,
                an_createdAt = rm_created_at markerData\<rparr>,
           mark_imported markerId now s))"

subsection \<open>POST /progress and POST /notes\<close>

text \<open>\<^verbatim>\<open>UPDATE reader_sessions SET ..., last_activity_at = NOW()
  WHERE invitation_id = $n\<close>\<close>

definition update_sessions :: "uuid \<Rightarrow> (session \<Rightarrow> session) \<Rightarrow> timestamp \<Rightarrow> store \<Rightarrow> store" where
  "update_sessions inv_id set_cols now s =
     s\<lparr>reader_sessions :=
         map (\<lambda>rs. if rs_invitation_id rs = inv_id
                    then (set_cols rs)\<lparr>rs_last_activity_at := now\<rparr> else rs)
           (reader_sessions s)\<rparr>"

text \<open>\<open>last_chapter_id\<close> is UUID and \<open>completion_percentage\<close> is INTEGER: a chapter id
  that is no UUID, or a percentage outside 32 bits, makes the UPDATE of the session fail,
  and the handler answers 500 with nothing written.\<close>

definition updateProgress ::
  "timestamp \<Rightarrow> string \<Rightarrow> string option \<Rightarrow> int option \<Rightarrow> store \<Rightarrow> (error + unit) \<times> store" where
  "updateProgress now accessToken chapterId completionPercentage s =
     (case by_token s accessToken of
        [] \<Rightarrow> (Inl InvalidAccessToken, s)
      | inv_row # _ \<Rightarrow>
          (case uuid_null chapterId of
             Some last_chapter_id \<Rightarrow>
               if int4_null completionPercentage then
                 (Inr (),
                  touch_last_activity (ri_id inv_row) now
                    (update_sessions (ri_id inv_row)
                       (\<lambda>rs. rs\<lparr>rs_last_chapter_id := last_chapter_id,
                                 rs_completion_percentage := completionPercentage\<rparr>) now s))
               else (Inl (ServerError ''Failed to update progress''), s)
           | None \<Rightarrow> (Inl (ServerError ''Failed to update progress''), s)))"

text \<open>The response is \<^verbatim>\<open>result.rows[0]?.notes || ''\<close>.\<close>

definition updateNotes ::
  "timestamp \<Rightarrow> string \<Rightarrow> string option \<Rightarrow> store \<Rightarrow> (error + string) \<times> store" where
  "updateNotes now accessToken notes s =
     (case by_token s accessToken of
        [] \<Rightarrow> (Inl InvalidAccessToken, s)
      | inv_row # _ \<Rightarrow>
          (let s1 = update_sessions (ri_id inv_row) (\<lambda>rs. rs\<lparr>rs_notes := notes\<rparr>) now s
           in (Inr (case filter (\<lambda>rs. rs_invitation_id rs = ri_id inv_row)
                           (reader_sessions s1) of
                      [] \<Rightarrow> [] | rs # _ \<Rightarrow> or_default (rs_notes rs) []),
               touch_last_activity (ri_id inv_row) now s1)))"

subsection \<open>The router's writing requests\<close>

text \<open>Every route of the router that issues an INSERT, UPDATE or DELETE; the remaining
  routes only SELECT.\<close>

datatype request =
    CreateInvitations uuid uuid "string list" "string option" "reader list" timestamp
      "string option"
  | RevokeInvitation uuid uuid
  | ResendInvitation uuid uuid
  | RenameCircle uuid uuid "string list" string
  | ArchiveCircle uuid uuid "string list" bool
  | ResolveAccess string
  | CreateMarker string string string string marker_type "string option" "string option"
      "string option"
  | UpdateMarker uuid string "string option"
  | DeleteMarker uuid string
  | ImportMarker uuid uuid
  | UpdateProgress string "string option" "int option"
  | UpdateNotes string "string option"

fun handle ::
  "(email_request \<Rightarrow> string option) \<Rightarrow> (nat \<Rightarrow> string) \<Rightarrow> (timestamp \<Rightarrow> string) \<Rightarrow> timestamp \<Rightarrow>
   request \<Rightarrow> store \<Rightarrow> store" where
  "handle send gen fmt now (CreateInvitations user_id projectId chapters message readers
       expiresAt circleName) s =
     snd (createInvitations send gen fmt now user_id projectId chapters message readers
            expiresAt circleName s)"
| "handle send gen fmt now (RevokeInvitation user_id invitationId) s =
     snd (revokeInvitation now user_id invitationId s)"
| "handle send gen fmt now (ResendInvitation user_id invitationId) s =
     snd (resendInvitation send now user_id invitationId s)"
| "handle send gen fmt now (RenameCircle user_id projectId chaptersAccessible circleName) s =
     snd (renameCircle now user_id projectId chaptersAccessible circleName s)"
| "handle send gen fmt now (ArchiveCircle user_id projectId chaptersAccessible archived) s =
     snd (archiveCircle now user_id projectId chaptersAccessible archived s)"
| "handle send gen fmt now (ResolveAccess token) s = snd (resolveAccess now token s)"
| "handle send gen fmt now (CreateMarker accessToken chapterId sceneId markerId markerType
       markerText highlightedText positionData) s =
     snd (createMarker now accessToken chapterId sceneId markerId markerType markerText
            highlightedText positionData s)"
| "handle send gen fmt now (UpdateMarker markerId accessToken markerText) s =
     snd (updateMarker now markerId accessToken markerText s)"
| "handle send gen fmt now (DeleteMarker markerId accessToken) s =
     snd (deleteMarker markerId accessToken s)"
| "handle send gen fmt now (ImportMarker user_id markerId) s =
     snd (importMarker now user_id markerId s)"
| "handle send gen fmt now (UpdateProgress accessToken chapterId completionPercentage) s =
     snd (updateProgress now accessToken chapterId completionPercentage s)"
| "handle send gen fmt now (UpdateNotes accessToken notes) s =
     snd (updateNotes now accessToken notes s)"

subsection \<open>Notions used to state the properties\<close>

text \<open>The project's chapter list before filtering (\<^verbatim>\<open>project_data.chapters\<close>, empty when
  the key is absent).\<close>

definition unfiltered_chapters :: "project \<Rightarrow> chapter_doc list" where
  "unfiltered_chapters p = (case p_chapters p of None \<Rightarrow> [] | Some chs \<Rightarrow> chs)"

text \<open>The tokens drawn for readers \<open>k, \<dots>, k + n - 1\<close> are pairwise different, not yet
  stored and at most 255 characters long: what the token issuer promises, and what the
  column \<open>access_token\<close> checks.\<close>

definition fresh_tokens :: "(nat \<Rightarrow> string) \<Rightarrow> nat \<Rightarrow> nat \<Rightarrow> store \<Rightarrow> bool" where
  "fresh_tokens gen k n s \<longleftrightarrow>
     distinct (map gen [k..<k + n]) \<and>
     (\<forall>j \<in> set [k..<k + n].
        length (gen j) \<le> 255 \<and>
        gen j \<notin> set (map ri_access_token (reader_invitations s)))"

text \<open>A nullable string of at most 255 characters.\<close>

fun fits255 :: "string option \<Rightarrow> bool" where
  "fits255 None = True"
| "fits255 (Some v) = (length v \<le> 255)"

text \<open>The delivery failures among a list of email requests, in order.\<close>

definition failures :: "(email_request \<Rightarrow> string option) \<Rightarrow> email_request list \<Rightarrow> email_error list" where
  "failures send reqs =
     concat (map (\<lambda>q. case send q of None \<Rightarrow> []
                      | Some m \<Rightarrow> [\<lparr>ee_reader = em_readerEmail q, ee_error = m\<rparr>]) reqs)"

text \<open>The rows and the emails a run of the invitation loop without a failed insert
  produces, reader by reader.\<close>

fun expected_rows ::
  "invite_ctx \<Rightarrow> (nat \<Rightarrow> string) \<Rightarrow> nat \<Rightarrow> uuid \<Rightarrow> reader list \<Rightarrow> invitation list" where
  "expected_rows cx gen k u [] = []"
| "expected_rows cx gen k u (rd # rest) =
     (new_invitation cx (gen k) rd)\<lparr>ri_id := u\<rparr> # expected_rows cx gen (k + 1) (u + 1) rest"

fun expected_emails ::
  "invite_ctx \<Rightarrow> (nat \<Rightarrow> string) \<Rightarrow> nat \<Rightarrow> reader list \<Rightarrow> email_request list" where
  "expected_emails cx gen k [] = []"
| "expected_emails cx gen k (rd # rest) =
     invitation_email cx (gen k) rd # expected_emails cx gen (k + 1) rest"

text \<open>The request is a ResolveAccess whose token selects this invitation row.\<close>

definition resolves_to :: "store \<Rightarrow> request \<Rightarrow> invitation \<Rightarrow> bool" where
  "resolves_to s r row =
     (case r of
        ResolveAccess token \<Rightarrow>
          (case select_access s token of [] \<Rightarrow> False | (inv_row, p) # _ \<Rightarrow> inv_row = row)
      | _ \<Rightarrow> False)"

subsection \<open>A small store for concrete runs\<close>

text \<open>One author with a four-chapter manuscript and one pending invitation for the second
  and fourth chapter, expiring at time 100.\<close>

definition ex_chapters :: "chapter_doc list" where
  "ex_chapters =
     [\<lparr>ch_id = ''A'', ch_name = Some ''Arrival'', ch_rest = []\<rparr>,
      \<lparr>ch_id = ''B'', ch_name = Some ''Bridge'', ch_rest = []\<rparr>,
      \<lparr>ch_id = ''C'', ch_name = None, ch_rest = []\<rparr>,
      \<lparr>ch_id = ''D'', ch_name = Some ''Dusk'', ch_rest = []\<rparr>]"

definition ex_project :: project where
  "ex_project = \<lparr>p_project_id = 1, p_user_id = 7, p_title = ''Novel'',
                  p_chapters = Some ex_chapters\<rparr>"

definition ex_user :: user where
  "ex_user = \<lparr>u_user_id = 7, u_first_name = Some ''Ada'', u_last_name = Some ''Byron'',
               u_username = Some ''ada''\<rparr>"

definition ex_invitation :: invitation where
  "ex_invitation =
     \<lparr>ri_id = 10, ri_project_id = 1, ri_user_id = 7, ri_access_token = ''tok'',
      ri_chapters_accessible = [''B'', ''D''], ri_invitation_message = None,
      ri_reader_name = Some ''Rea'', ri_reader_email = Some ''rea@example.org'',
      ri_status = Pending, ri_accepted_at = None, ri_expires_at = 100, ri_created_at = 0,
      ri_updated_at = 0, ri_last_activity_at = None, ri_circle_name = ''Draft Review'',
      ri_archived = False\<rparr>"

definition ex_store :: store where
  "ex_store = \<lparr>users = [ex_user], projects = [ex_project],
                reader_invitations = [ex_invitation], reader_sessions = [],
                reader_markers = [], uuid_seq = 11, outbox = []\<rparr>"

text \<open>The same author with a busier table, read at time 50: fourteen invitations of
  project 1 that count as active (seven pending, seven accepted, expiring at 100), and
  five that do not: a revoked one, an expired one, a pending one past its expiry, a pending
  one expiring at this very instant, and a pending one of another project.\<close>

definition ex_row :: "nat \<Rightarrow> status \<Rightarrow> timestamp \<Rightarrow> uuid \<Rightarrow> invitation" where
  "ex_row k st expires pid =
     ex_invitation\<lparr>ri_id := 100 + k, ri_access_token := CHR ''t'' # replicate k (CHR ''x''),
                   ri_status := st, ri_expires_at := expires, ri_project_id := pid\<rparr>"

definition ex_mixed_store :: store where
  "ex_mixed_store =
     ex_store\<lparr>reader_invitations :=
                map (\<lambda>k. ex_row k Pending 100 1) [0..<7] @
                map (\<lambda>k. ex_row k Accepted 100 1) [7..<14] @
                [ex_row 14 Revoked 100 1, ex_row 15 Expired 100 1, ex_row 16 Pending 40 1,
                 ex_row 17 Pending 50 1, ex_row 18 Pending 100 2],
              uuid_seq := 200\<rparr>"

definition ex_one_reader :: "reader list" where
  "ex_one_reader = [\<lparr>rd_name = Some ''Sam'', rd_email = Some ''sam@example.org''\<rparr>]"

text \<open>A chapter id in the form of a UUID.\<close>

definition ex_chapter_uuid :: string where
  "ex_chapter_uuid = ''0a1b2c3d-1111-2222-3333-444455556666''"

definition ex_readers :: "reader list" where
  "ex_readers = [\<lparr>rd_name = Some ''Sam'', rd_email = Some ''sam@example.org''\<rparr>,
                 \<lparr>rd_name = Some ''Uma'', rd_email = Some ''uma@example.org''\<rparr>]"

text \<open>A token source (the \<open>k\<close>-th token is \<open>k + 1\<close> letters long) and a date format.\<close>

definition ex_gen :: "nat \<Rightarrow> string" where
  "ex_gen k = replicate (Suc k) (CHR ''n'')"

definition ex_fmt :: "timestamp \<Rightarrow> string" where
  "ex_fmt t = ''Jan 1, 2026''"

text \<open>A gateway that cannot deliver to Sam.\<close>

definition ex_send :: "email_request \<Rightarrow> string option" where
  "ex_send q = (if em_readerEmail q = Some ''sam@example.org'' then Some ''SMTP down'' else None)"

text \<open>The reader has opened the manuscript and left one marker on chapter B.\<close>

definition ex_session :: session where
  "ex_session = \<lparr>rs_id = 30, rs_invitation_id = 10, rs_last_chapter_id = None,
                  rs_completion_percentage = Some 0, rs_created_at = 5,
                  rs_last_activity_at = 5, rs_notes = Some []\<rparr>"

definition ex_marker :: marker where
  "ex_marker = \<lparr>rm_id = 20, rm_invitation_id = 10, rm_project_id = 1, rm_chapter_id = ''B'',
                 rm_scene_id = ''scene-1'', rm_marker_id = ''m-1'', rm_marker_type = Note,
                 rm_marker_text = Some ''Nice'', rm_highlighted_text = None,
                 rm_position_data = None, rm_created_at = 6, rm_updated_at = 6,
                 rm_imported_to_project = False, rm_imported_at = None\<rparr>"

definition ex_read_store :: store where
  "ex_read_store =
     ex_store\<lparr>reader_invitations := [ex_invitation\<lparr>ri_status := Accepted\<rparr>],
              reader_sessions := [ex_session], reader_markers := [ex_marker],
              uuid_seq := 31\<rparr>"

text \<open>The author has then revoked the invitation.\<close>

definition ex_revoked_store :: store where
  "ex_revoked_store =
     ex_read_store\<lparr>reader_invitations := [ex_invitation\<lparr>ri_status := Revoked\<rparr>]\<rparr>"

section \<open>Properties\<close>

subsection \<open>Auxiliary facts\<close>

lemma concat_map_if:
  "concat (map (\<lambda>x. if P x then [f x] else []) xs) = map f (filter P xs)"
  by (induction xs) auto

lemma enumerate_as_map: "enumerate 0 xs = map (\<lambda>i. (i, xs ! i)) [0..<length xs]"
proof -
  have "enumerate 0 xs = zip [0..<length xs] (map (\<lambda>i. xs ! i) [0..<length xs])"
    by (simp add: enumerate_eq_zip map_nth)
  also have "\<dots> = map (\<lambda>i. (i, xs ! i)) [0..<length xs]"
    by (simp add: zip_map2 zip_same_conv_map)
  finally show ?thesis .
qed

lemma filteredChapters_Some:
  "filteredChapters (Some chs) acc =
     Some [\<lparr>nc_chapter = chs ! i, chapterNumber = i + 1\<rparr>.
             i \<leftarrow> [0..<length chs], ch_id (chs ! i) \<in> set acc]"
  by (simp add: filteredChapters_def enumerate_as_map filter_map o_def concat_map_if)

text \<open>An UPDATE that keeps token and project of every row keeps the rows a token selects,
  up to the update itself.\<close>

lemma select_access_update:
  assumes "\<And>ri. ri_access_token (f ri) = ri_access_token ri"
      and "\<And>ri. ri_project_id (f ri) = ri_project_id ri"
  shows "select_access (update_invitations c f now s) token =
         map (\<lambda>(ri, p). (if c ri then (f ri)\<lparr>ri_updated_at := now\<rparr> else ri, p))
           (select_access s token)"
proof -
  have "concat (map (\<lambda>ri. map (Pair ri) (filter (\<lambda>p. p_project_id p = ri_project_id ri) ps))
          (filter (\<lambda>ri. ri_access_token ri = token)
             (map (\<lambda>ri. if c ri then (f ri)\<lparr>ri_updated_at := now\<rparr> else ri) xs))) =
        map (\<lambda>(ri, p). (if c ri then (f ri)\<lparr>ri_updated_at := now\<rparr> else ri, p))
          (concat (map (\<lambda>ri. map (Pair ri) (filter (\<lambda>p. p_project_id p = ri_project_id ri) ps))
             (filter (\<lambda>ri. ri_access_token ri = token) xs)))" for xs and ps :: "project list"
    by (induction xs) (auto simp: assms)
  then show ?thesis
    by (simp add: select_access_def update_invitations_def)
qed

lemma ex_select_access: "select_access ex_store ''tok'' = [(ex_invitation, ex_project)]"
  by (simp add: select_access_def ex_store_def ex_invitation_def ex_project_def)

text \<open>The UUID input syntax on the forms the store's manual lists.\<close>

lemma uuid_in_examples:
  "uuid_in ''A0EEBC99-9C0B-4EF8-BB6D-6BB9BD380A11'' = Some ''a0eebc99-9c0b-4ef8-bb6d-6bb9bd380a11''"
  "uuid_in ''{a0eebc99-9c0b-4ef8-bb6d-6bb9bd380a11}'' = Some ''a0eebc99-9c0b-4ef8-bb6d-6bb9bd380a11''"
  "uuid_in ''a0eebc999c0b4ef8bb6d6bb9bd380a11'' = Some ''a0eebc99-9c0b-4ef8-bb6d-6bb9bd380a11''"
  "uuid_in ''a0ee-bc99-9c0b-4ef8-bb6d-6bb9-bd38-0a11'' = Some ''a0eebc99-9c0b-4ef8-bb6d-6bb9bd380a11''"
  "uuid_in ''a0-eebc999c0b4ef8bb6d6bb9bd380a11'' = None"
  "uuid_in ''ch-2'' = None"
  by code_simp+

lemma varchar_fits: "length v \<le> n \<Longrightarrow> varchar n v = Some v"
  by (simp add: varchar_def)

lemma varchar_null_fits: "fits255 v \<Longrightarrow> varchar_null 255 v = Some v"
  by (cases v) (simp_all add: varchar_fits)

lemma fresh_tokens_step:
  assumes "fresh_tokens gen k (Suc n) s"
  shows "gen k \<notin> set (map ri_access_token (reader_invitations s))"
    and "length (gen k) \<le> 255"
    and "fresh_tokens gen (Suc k) n
           (s\<lparr>reader_invitations := reader_invitations s @ [r\<lparr>ri_access_token := gen k\<rparr>],
              uuid_seq := u, outbox := ob\<rparr>)"
proof -
  have upt: "[k..<k + Suc n] = k # [Suc k..<Suc k + n]"
    by (simp add: upt_conv_Cons)
  show "gen k \<notin> set (map ri_access_token (reader_invitations s))"
    using assms unfolding fresh_tokens_def upt by (simp del: upt_Suc)
  show "length (gen k) \<le> 255"
    using assms unfolding fresh_tokens_def upt by (simp del: upt_Suc)
  show "fresh_tokens gen (Suc k) n
           (s\<lparr>reader_invitations := reader_invitations s @ [r\<lparr>ri_access_token := gen k\<rparr>],
              uuid_seq := u, outbox := ob\<rparr>)"
    using assms unfolding fresh_tokens_def upt
    by (auto simp del: upt_Suc simp: image_iff)
qed

lemma invite_readers_fresh:
  "fresh_tokens gen k (length rds) s \<Longrightarrow>
   \<forall>rd \<in> set rds. fits255 (rd_name rd) \<and> fits255 (rd_email rd) \<Longrightarrow>
   length (cx_circle_name cx) \<le> 255 \<Longrightarrow>
   invite_readers send gen cx rds k invs errs s =
     (Inr (invs @ expected_rows cx gen k (uuid_seq s) rds,
           errs @ failures send (expected_emails cx gen k rds)),
      s\<lparr>reader_invitations := reader_invitations s @ expected_rows cx gen k (uuid_seq s) rds,
        uuid_seq := uuid_seq s + length rds,
        outbox := outbox s @ expected_emails cx gen k rds\<rparr>)"
proof (induction rds arbitrary: k invs errs s)
  case Nil
  then show ?case by (simp add: failures_def)
next
  case (Cons rd rest)
  let ?row = "(new_invitation cx (gen k) rd)\<lparr>ri_id := uuid_seq s\<rparr>"
  let ?req = "invitation_email cx (gen k) rd"
  let ?s2 = "s\<lparr>reader_invitations := reader_invitations s @ [?row],
               uuid_seq := uuid_seq s + 1, outbox := outbox s @ [?req]\<rparr>"
  have row: "?row = ?row\<lparr>ri_access_token := gen k\<rparr>"
    by (simp add: new_invitation_def)
  from Cons.prems have fr: "fresh_tokens gen k (Suc (length rest)) s" by simp
  have notin: "gen k \<notin> set (map ri_access_token (reader_invitations s))"
    by (rule fresh_tokens_step(1)[OF fr])
  have tok: "varchar 255 (gen k) = Some (gen k)"
    by (rule varchar_fits[OF fresh_tokens_step(2)[OF fr]])
  have circle: "varchar 255 (cx_circle_name cx) = Some (cx_circle_name cx)"
    by (rule varchar_fits[OF Cons.prems(3)])
  have rd: "varchar_null 255 (rd_name rd) = Some (rd_name rd)"
           "varchar_null 255 (rd_email rd) = Some (rd_email rd)"
    using Cons.prems(2) by (simp_all add: varchar_null_fits)
  have fr2: "fresh_tokens gen (Suc k) (length rest) ?s2"
    using fresh_tokens_step(3)[OF fr, where r = ?row and u = "uuid_seq s + 1"
            and ob = "outbox s @ [?req]"] row by simp
  have ins: "insert_invitation (new_invitation cx (gen k) rd) s =
       Some (?row, s\<lparr>reader_invitations := reader_invitations s @ [?row],
                      uuid_seq := uuid_seq s + 1\<rparr>)"
    using notin by (simp add: insert_invitation_def new_invitation_def tok circle rd Let_def)
  have rest_fit: "\<forall>rd \<in> set rest. fits255 (rd_name rd) \<and> fits255 (rd_email rd)"
    using Cons.prems(2) by simp
  have IH: "invite_readers send gen cx rest (Suc k) invs' errs' ?s2 =
     (Inr (invs' @ expected_rows cx gen (Suc k) (uuid_seq ?s2) rest,
           errs' @ failures send (expected_emails cx gen (Suc k) rest)),
      ?s2\<lparr>reader_invitations := reader_invitations ?s2 @ expected_rows cx gen (Suc k) (uuid_seq ?s2) rest,
        uuid_seq := uuid_seq ?s2 + length rest,
        outbox := outbox ?s2 @ expected_emails cx gen (Suc k) rest\<rparr>)" for invs' errs'
    by (rule Cons.IH[OF fr2 rest_fit Cons.prems(3)])
  show ?case
  proof (cases "send ?req")
    case None
    then show ?thesis
      using IH[of "invs @ [?row]" errs]
      by (simp add: ins failures_def)
  next
    case (Some m)
    then show ?thesis
      using IH[of "invs @ [?row]" "errs @ [\<lparr>ee_reader = rd_email rd, ee_error = m\<rparr>]"]
      by (simp add: ins failures_def invitation_email_def)
  qed
qed

lemma upt_shift: "[k..<k + Suc n] = k # [Suc k..<Suc k + n]"
  by (simp add: upt_conv_Cons)

lemma expected_rows_length: "length (expected_rows cx gen k u rds) = length rds"
  by (induction rds arbitrary: k u) simp_all

lemma expected_rows_names: "map ri_reader_name (expected_rows cx gen k u rds) = map rd_name rds"
  by (induction rds arbitrary: k u) (simp_all add: new_invitation_def)

lemma expected_rows_emails: "map ri_reader_email (expected_rows cx gen k u rds) = map rd_email rds"
  by (induction rds arbitrary: k u) (simp_all add: new_invitation_def)

lemma expected_rows_tokens:
  "map ri_access_token (expected_rows cx gen k u rds) = map gen [k..<k + length rds]"
proof (induction rds arbitrary: k u)
  case Nil
  then show ?case by simp
next
  case (Cons rd rest)
  have "[k..<k + length (rd # rest)] = k # [Suc k..<Suc k + length rest]"
    using upt_shift[of k "length rest"] by simp
  then show ?case
    using Cons.IH[of "Suc k" "Suc u"] by (simp add: new_invitation_def)
qed

lemma expected_rows_fields:
  "ri \<in> set (expected_rows cx gen k u rds) \<Longrightarrow>
      ri_project_id ri = cx_projectId cx \<and> ri_user_id ri = cx_user_id cx \<and>
      ri_chapters_accessible ri = cx_chapters cx \<and> ri_status ri = Pending \<and>
      ri_expires_at ri = cx_expiresAt cx"
  by (induction rds arbitrary: k u) (auto simp: new_invitation_def)

lemma expected_emails_length: "length (expected_emails cx gen k rds) = length rds"
  by (induction rds arbitrary: k) simp_all

lemma expected_emails_readers:
  "map em_readerEmail (expected_emails cx gen k rds) = map rd_email rds"
  by (induction rds arbitrary: k) (simp_all add: invitation_email_def)

lemma expected_emails_tokens:
  "map em_accessToken (expected_emails cx gen k rds) = map gen [k..<k + length rds]"
proof (induction rds arbitrary: k)
  case Nil
  then show ?case by simp
next
  case (Cons rd rest)
  have "[k..<k + length (rd # rest)] = k # [Suc k..<Suc k + length rest]"
    using upt_shift[of k "length rest"] by simp
  then show ?case
    using Cons.IH[of "Suc k"] by (simp add: invitation_email_def)
qed

lemma projectCheck_nonempty:
  "projectCheck s projectId user_id \<noteq> [] \<longleftrightarrow>
     (\<exists>p \<in> set (projects s). p_project_id p = projectId \<and> p_user_id p = user_id)"
  by (simp add: projectCheck_def filter_empty_conv)

lemma projectDetails_nonempty:
  "projectDetails s projectId \<noteq> [] \<longleftrightarrow>
     (\<exists>p \<in> set (projects s). p_project_id p = projectId \<and>
        (\<exists>u \<in> set (users s). u_user_id u = p_user_id p))"
  by (simp add: projectDetails_def filter_empty_conv) blast

text \<open>The handler's result when the project is owned, the quota is respected and no
  insert is refused.\<close>

lemma createInvitations_fresh:
  assumes own: "projectCheck s projectId user_id \<noteq> []"
      and quota: "currentActive s projectId now + length readers \<le> 15"
      and pd: "projectDetails s projectId = (p, u) # rest"
      and fresh: "fresh_tokens gen 0 (length readers) s"
      and fit: "\<forall>rd \<in> set readers. fits255 (rd_name rd) \<and> fits255 (rd_email rd)"
      and circle: "length (or_default circleName (''Draft Review - '' @ fmt now)) \<le> 255"
  shows "createInvitations send gen fmt now user_id projectId chapters message readers
             expiresAt circleName s =
         (let cx = invite_context fmt now user_id projectId chapters message expiresAt
                     circleName p u;
              errs = failures send (expected_emails cx gen 0 readers)
          in (Inr \<lparr>ic_invitations = expected_rows cx gen 0 (uuid_seq s) readers,
                   ic_emailErrors = (if errs = [] then None else Some errs)\<rparr>,
              s\<lparr>reader_invitations :=
                   reader_invitations s @ expected_rows cx gen 0 (uuid_seq s) readers,
                uuid_seq := uuid_seq s + length readers,
                outbox := outbox s @ expected_emails cx gen 0 readers\<rparr>))"
proof -
  have c: "length (cx_circle_name (invite_context fmt now user_id projectId chapters message
              expiresAt circleName p u)) \<le> 255"
    using circle by (simp add: invite_context_def)
  show ?thesis
    using own quota
    by (simp add: createInvitations_def pd invite_readers_fresh[OF fresh fit c] Let_def)
qed

lemma ex_mixed_active:
  "length (filter (\<lambda>ri. ri_project_id ri = 1 \<and> (ri_status ri = Pending \<or> ri_status ri = Accepted) \<and>
                       50 < ri_expires_at ri)
             (reader_invitations ex_mixed_store)) = 14"
  by (simp add: ex_mixed_store_def ex_store_def ex_row_def ex_invitation_def upt_conv_Cons)

lemma ex_mixed_owner:
  "\<exists>p \<in> set (projects ex_mixed_store). p_project_id p = 1 \<and> p_user_id p = 7"
  "\<exists>p \<in> set (projects ex_mixed_store). \<exists>u \<in> set (users ex_mixed_store).
      p_project_id p = 1 \<and> u_user_id u = p_user_id p"
  by (simp_all add: ex_mixed_store_def ex_store_def ex_project_def ex_user_def)

lemma ex_owner:
  "\<exists>p \<in> set (projects ex_store). p_project_id p = 1 \<and> p_user_id p = 7"
  "\<exists>p \<in> set (projects ex_store). \<exists>u \<in> set (users ex_store).
      p_project_id p = 1 \<and> u_user_id u = p_user_id p"
  by (simp_all add: ex_store_def ex_project_def ex_user_def)

subsection \<open>Content filter\<close>

text \<open>
  Claim C2. Whenever ResolveAccess serves content (the token resolves, the invitation is
  neither past its expiry nor revoked), the chapters it returns are exactly the chapters of
  the project whose id is among \<open>chapters_accessible\<close>, in manuscript order, and each carries
  as \<open>chapterNumber\<close> its 1-based position in the unfiltered chapter list: position \<open>i\<close>
  (0-based) is returned with number \<open>i + 1\<close> iff its id is accessible.
\<close>

theorem resolveAccess_chapter_numbers:
  assumes "select_access s token = (inv_row, p) # rest"
      and "\<not> ri_expires_at inv_row < now"
      and "ri_status inv_row \<noteq> Revoked"
  shows "\<exists>v s'. resolveAccess now token s = (Inr v, s') \<and>
           av_chapters v =
             [\<lparr>nc_chapter = unfiltered_chapters p ! i, chapterNumber = i + 1\<rparr>.
                i \<leftarrow> [0..<length (unfiltered_chapters p)],
                ch_id (unfiltered_chapters p ! i) \<in> set (ri_chapters_accessible inv_row)]"
proof (cases "p_chapters p")
  case None
  then show ?thesis using assms
    by (auto simp: resolveAccess_def unfiltered_chapters_def filteredChapters_def Let_def
             split: prod.splits list.splits)
next
  case (Some chs)
  then have u: "unfiltered_chapters p = chs"
    by (simp add: unfiltered_chapters_def)
  show ?thesis using assms Some unfolding u
    by (simp add: resolveAccess_def filteredChapters_Some Let_def split: prod.splits list.splits)
qed

text \<open>Chapters A, B, C, D with B and D accessible: B is chapter 2 and D is chapter 4.\<close>

theorem resolveAccess_chapter_numbers_witness:
  "\<exists>v s'. resolveAccess 50 ''tok'' ex_store = (Inr v, s') \<and>
      map (\<lambda>nc. (ch_id (nc_chapter nc), chapterNumber nc)) (av_chapters v) =
        [(''B'', 2), (''D'', 4)]"
proof -
  have live: "\<not> ri_expires_at ex_invitation < 50" "ri_status ex_invitation \<noteq> Revoked"
    by (simp_all add: ex_invitation_def)
  have chs: "unfiltered_chapters ex_project = ex_chapters"
    by (simp add: unfiltered_chapters_def ex_project_def)
  have upt4: "[0..<4] = [0, 1, 2, Suc 2]"
    by (simp add: upt_conv_Cons)
  from resolveAccess_chapter_numbers[OF ex_select_access live]
  obtain v s' where r: "resolveAccess 50 ''tok'' ex_store = (Inr v, s')"
    and c: "av_chapters v =
             [\<lparr>nc_chapter = unfiltered_chapters ex_project ! i, chapterNumber = i + 1\<rparr>.
                i \<leftarrow> [0..<length (unfiltered_chapters ex_project)],
                ch_id (unfiltered_chapters ex_project ! i)
                  \<in> set (ri_chapters_accessible ex_invitation)]"
    by blast
  have "map (\<lambda>nc. (ch_id (nc_chapter nc), chapterNumber nc)) (av_chapters v) =
        [(''B'', 2), (''D'', 4)]"
    unfolding c chs by (simp add: ex_chapters_def ex_invitation_def upt4)
  with r show ?thesis
    by (intro exI[of _ v] exI[of _ s']) simp
qed

subsection \<open>Expiry\<close>

text \<open>
  Claim C3. For an invitation whose \<open>expires_at\<close> lies in the past, ResolveAccess answers
  with the expired error (403, no content) and a later lookup of the token reads status
  \<open>expired\<close>; a second call at any later time answers the same and leaves the status
  \<open>expired\<close>.
\<close>

theorem resolveAccess_expired_twice:
  assumes sel: "select_access s token = (inv_row, p) # rest"
      and exp1: "ri_expires_at inv_row < now1"
      and mono: "now1 \<le> now2"
  shows "fst (resolveAccess now1 token s) = Inl AccessTokenExpired \<and>
         status_of_token (snd (resolveAccess now1 token s)) token = Some Expired \<and>
         fst (resolveAccess now2 token (snd (resolveAccess now1 token s)))
           = Inl AccessTokenExpired \<and>
         status_of_token (snd (resolveAccess now2 token (snd (resolveAccess now1 token s)))) token
           = Some Expired"
proof -
  let ?s1 = "update_invitations (\<lambda>ri. ri_id ri = ri_id inv_row)
               (\<lambda>ri. ri\<lparr>ri_status := Expired\<rparr>) now1 s"
  let ?r1 = "inv_row\<lparr>ri_status := Expired, ri_updated_at := now1\<rparr>"
  have r1: "resolveAccess now1 token s = (Inl AccessTokenExpired, ?s1)"
    using sel exp1 by (simp add: resolveAccess_def)
  have sel1: "select_access ?s1 token =
      (?r1, p) # map (\<lambda>(ri, p). (if ri_id ri = ri_id inv_row
                                   then ri\<lparr>ri_status := Expired, ri_updated_at := now1\<rparr>
                                   else ri, p)) rest"
    by (simp add: select_access_update sel)
  have exp2: "ri_expires_at ?r1 < now2" using exp1 mono by simp
  let ?s2 = "update_invitations (\<lambda>ri. ri_id ri = ri_id ?r1)
               (\<lambda>ri. ri\<lparr>ri_status := Expired\<rparr>) now2 ?s1"
  have r2: "resolveAccess now2 token ?s1 = (Inl AccessTokenExpired, ?s2)"
    using sel1 exp2 by (simp add: resolveAccess_def)
  have sel2: "\<exists>rest2. select_access ?s2 token =
                 (?r1\<lparr>ri_status := Expired, ri_updated_at := now2\<rparr>, p) # rest2"
    by (simp add: select_access_update sel1)
  show ?thesis
    using r1 r2 sel1 sel2 by (auto simp: status_of_token_def)
qed

theorem resolveAccess_expired_twice_witness:
  "fst (resolveAccess 200 ''tok'' ex_store) = Inl AccessTokenExpired \<and>
   status_of_token (snd (resolveAccess 200 ''tok'' ex_store)) ''tok'' = Some Expired \<and>
   fst (resolveAccess 300 ''tok'' (snd (resolveAccess 200 ''tok'' ex_store)))
     = Inl AccessTokenExpired \<and>
   status_of_token (snd (resolveAccess 300 ''tok'' (snd (resolveAccess 200 ''tok'' ex_store))))
     ''tok'' = Some Expired"
proof -
  have "ri_expires_at ex_invitation < 200" "(200::int) \<le> 300"
    by (simp_all add: ex_invitation_def)
  from resolveAccess_expired_twice[OF ex_select_access this] show ?thesis .
qed

subsection \<open>Invitation quota\<close>

text \<open>
  Claim C4. For a project the caller owns, let \<open>active\<close> be the number of invitation rows
  of this project whose status is pending or accepted and whose \<open>expires_at\<close> is later
  than now. When \<open>active\<close> plus the number of readers exceeds 15, CreateInvitations fails
  with the quota error and the store is unchanged (no row is persisted). When the sum is at
  most 15 and no insert is refused (the owner's user row exists, names, emails and circle
  name fit their 255-character columns, the tokens drawn are fresh), it succeeds and
  appends exactly one invitation row per reader, in order, each carrying that reader's name
  and email, the project, the owner, the chapter list and the expiry of the request, with
  status \<open>pending\<close>.
\<close>

theorem createInvitations_quota:
  assumes own: "\<exists>p \<in> set (projects s). p_project_id p = projectId \<and> p_user_id p = user_id"
      and count: "active =
                    length (filter (\<lambda>ri. ri_project_id ri = projectId \<and>
                                         (ri_status ri = Pending \<or> ri_status ri = Accepted) \<and>
                                         now < ri_expires_at ri)
                              (reader_invitations s))"
  shows "(15 < active + length readers \<longrightarrow>
            createInvitations send gen fmt now user_id projectId chapters message readers
                expiresAt circleName s
              = (Inl (MaxActiveReaders active), s)) \<and>
         (active + length readers \<le> 15 \<and>
          (\<exists>p \<in> set (projects s). \<exists>u \<in> set (users s).
              p_project_id p = projectId \<and> u_user_id u = p_user_id p) \<and>
          (\<forall>rd \<in> set readers. fits255 (rd_name rd) \<and> fits255 (rd_email rd)) \<and>
          length (or_default circleName (''Draft Review - '' @ fmt now)) \<le> 255 \<and>
          fresh_tokens gen 0 (length readers) s \<longrightarrow>
            (\<exists>r s' rows.
               createInvitations send gen fmt now user_id projectId chapters message readers
                   expiresAt circleName s = (Inr r, s') \<and>
               reader_invitations s' = reader_invitations s @ rows \<and>
               length rows = length readers \<and>
               map ri_reader_name rows = map rd_name readers \<and>
               map ri_reader_email rows = map rd_email readers \<and>
               (\<forall>ri \<in> set rows. ri_project_id ri = projectId \<and> ri_user_id ri = user_id \<and>
                   ri_chapters_accessible ri = chapters \<and> ri_status ri = Pending \<and>
                   ri_expires_at ri = expiresAt)))"
proof (intro conjI impI)
  have own': "projectCheck s projectId user_id \<noteq> []"
    using own by (simp add: projectCheck_nonempty)
  have act: "currentActive s projectId now = active"
    by (simp add: currentActive_def count)
  {
    assume "15 < active + length readers"
    then show "createInvitations send gen fmt now user_id projectId chapters message readers
                  expiresAt circleName s
                = (Inl (MaxActiveReaders active), s)"
      using own' by (simp add: createInvitations_def act)
  }
  assume h: "active + length readers \<le> 15 \<and>
          (\<exists>p \<in> set (projects s). \<exists>u \<in> set (users s).
              p_project_id p = projectId \<and> u_user_id u = p_user_id p) \<and>
          (\<forall>rd \<in> set readers. fits255 (rd_name rd) \<and> fits255 (rd_email rd)) \<and>
          length (or_default circleName (''Draft Review - '' @ fmt now)) \<le> 255 \<and>
          fresh_tokens gen 0 (length readers) s"
  then have "projectDetails s projectId \<noteq> []"
    unfolding projectDetails_nonempty by blast
  then obtain p u rest where pd: "projectDetails s projectId = (p, u) # rest"
    by (cases "projectDetails s projectId") auto
  define cx where
    "cx = invite_context fmt now user_id projectId chapters message expiresAt circleName p u"
  have cxs: "cx_projectId cx = projectId" "cx_user_id cx = user_id" "cx_chapters cx = chapters"
    "cx_expiresAt cx = expiresAt"
    by (simp_all add: cx_def invite_context_def)
  let ?rows = "expected_rows cx gen 0 (uuid_seq s) readers"
  let ?errs = "failures send (expected_emails cx gen 0 readers)"
  let ?s' = "s\<lparr>reader_invitations := reader_invitations s @ ?rows,
          uuid_seq := uuid_seq s + length readers,
          outbox := outbox s @ expected_emails cx gen 0 readers\<rparr>"
  let ?r = "\<lparr>ic_invitations = ?rows,
              ic_emailErrors = (if ?errs = [] then None else Some ?errs)\<rparr>"
  have res: "createInvitations send gen fmt now user_id projectId chapters message readers
                   expiresAt circleName s = (Inr ?r, ?s')"
    unfolding cx_def
    by (rule createInvitations_fresh[OF own' _ pd, unfolded Let_def]) (use h act in simp_all)
  have fields: "\<forall>ri \<in> set ?rows. ri_project_id ri = projectId \<and> ri_user_id ri = user_id \<and>
                   ri_chapters_accessible ri = chapters \<and> ri_status ri = Pending \<and>
                   ri_expires_at ri = expiresAt"
    using expected_rows_fields[of _ cx gen 0 "uuid_seq s" readers] unfolding cxs by blast
  show "\<exists>r s' rows.
               createInvitations send gen fmt now user_id projectId chapters message readers
                   expiresAt circleName s = (Inr r, s') \<and>
               reader_invitations s' = reader_invitations s @ rows \<and>
               length rows = length readers \<and>
               map ri_reader_name rows = map rd_name readers \<and>
               map ri_reader_email rows = map rd_email readers \<and>
               (\<forall>ri \<in> set rows. ri_project_id ri = projectId \<and> ri_user_id ri = user_id \<and>
                   ri_chapters_accessible ri = chapters \<and> ri_status ri = Pending \<and>
                   ri_expires_at ri = expiresAt)"
    unfolding res
    using fields expected_rows_length[of cx gen 0 "uuid_seq s" readers]
      expected_rows_names[of cx gen 0 "uuid_seq s" readers]
      expected_rows_emails[of cx gen 0 "uuid_seq s" readers]
    by (intro exI[of _ ?r] exI[of _ ?s'] exI[of _ ?rows]) simp
qed

text \<open>In the busy store fourteen rows count. Two more readers are refused and nothing is
  written; one more reader is accepted and one row is appended to the nineteen.\<close>

theorem createInvitations_quota_witness:
  "createInvitations (\<lambda>q. None) ex_gen ex_fmt 50 7 1 [''A''] None ex_readers 500 None
       ex_mixed_store
     = (Inl (MaxActiveReaders 14), ex_mixed_store) \<and>
   (\<exists>r s' rows.
      createInvitations (\<lambda>q. None) ex_gen ex_fmt 50 7 1 [''A''] None ex_one_reader 500 None
          ex_mixed_store = (Inr r, s') \<and>
      reader_invitations s' = reader_invitations ex_mixed_store @ rows \<and>
      length (reader_invitations s') = 20 \<and>
      map ri_reader_name rows = [Some ''Sam''])"
proof -
  have over: "15 < 14 + length ex_readers"
    by (simp add: ex_readers_def)
  have under: "14 + length ex_one_reader \<le> 15 \<and>
          (\<exists>p \<in> set (projects ex_mixed_store). \<exists>u \<in> set (users ex_mixed_store).
              p_project_id p = 1 \<and> u_user_id u = p_user_id p) \<and>
          (\<forall>rd \<in> set ex_one_reader. fits255 (rd_name rd) \<and> fits255 (rd_email rd)) \<and>
          length (or_default None (''Draft Review - '' @ ex_fmt 50)) \<le> 255 \<and>
          fresh_tokens ex_gen 0 (length ex_one_reader) ex_mixed_store"
    using ex_mixed_owner(2)
    by (simp add: ex_one_reader_def ex_fmt_def fresh_tokens_def ex_gen_def ex_mixed_store_def
          ex_store_def ex_row_def ex_invitation_def upt_conv_Cons)
  have n: "length (reader_invitations ex_mixed_store) = 19"
    by (simp add: ex_mixed_store_def)
  have A: "createInvitations (\<lambda>q. None) ex_gen ex_fmt 50 7 1 [''A''] None ex_readers 500 None
       ex_mixed_store = (Inl (MaxActiveReaders 14), ex_mixed_store)"
    using createInvitations_quota[OF ex_mixed_owner(1) ex_mixed_active[symmetric],
            of ex_readers "\<lambda>q. None" ex_gen ex_fmt "[''A'']" None 500 None] over
    by simp
  from createInvitations_quota[OF ex_mixed_owner(1) ex_mixed_active[symmetric],
            of ex_one_reader "\<lambda>q. None" ex_gen ex_fmt "[''A'']" None 500 None] under
  obtain r s' rows where
    "createInvitations (\<lambda>q. None) ex_gen ex_fmt 50 7 1 [''A''] None ex_one_reader 500 None
          ex_mixed_store = (Inr r, s')"
    "reader_invitations s' = reader_invitations ex_mixed_store @ rows"
    "length rows = length ex_one_reader"
    "map ri_reader_name rows = map rd_name ex_one_reader"
    by blast
  then have B: "\<exists>r s' rows.
      createInvitations (\<lambda>q. None) ex_gen ex_fmt 50 7 1 [''A''] None ex_one_reader 500 None
          ex_mixed_store = (Inr r, s') \<and>
      reader_invitations s' = reader_invitations ex_mixed_store @ rows \<and>
      length (reader_invitations s') = 20 \<and>
      map ri_reader_name rows = [Some ''Sam'']"
    by (intro exI[of _ r] exI[of _ s'] exI[of _ rows]) (simp add: ex_one_reader_def n)
  from A B show ?thesis by (rule conjI)
qed

subsection \<open>Email delivery failures\<close>

text \<open>
  Claim C9. In CreateInvitations (project owned, quota respected, no insert refused),
  whatever the email gateway does for each reader, the response is the successful 201
  response, every reader's invitation row is in the store (one row per reader, in order:
  a failed delivery neither removes that reader's row nor stops the loop), one email
  request per reader was handed to the gateway with that reader's token, and
  \<open>emailErrors\<close> lists exactly the readers whose delivery failed, with the failure's
  message (it is absent when none failed).
\<close>

theorem createInvitations_email_failures:
  assumes own: "\<exists>p \<in> set (projects s). p_project_id p = projectId \<and> p_user_id p = user_id"
      and quota: "length (filter (\<lambda>ri. ri_project_id ri = projectId \<and>
                                         (ri_status ri = Pending \<or> ri_status ri = Accepted) \<and>
                                         now < ri_expires_at ri)
                              (reader_invitations s)) + length readers \<le> 15"
      and details: "\<exists>p \<in> set (projects s). \<exists>u \<in> set (users s).
                      p_project_id p = projectId \<and> u_user_id u = p_user_id p"
      and fit: "\<forall>rd \<in> set readers. fits255 (rd_name rd) \<and> fits255 (rd_email rd)"
      and circle: "length (or_default circleName (''Draft Review - '' @ fmt now)) \<le> 255"
      and fresh: "fresh_tokens gen 0 (length readers) s"
  shows "\<exists>r s' reqs.
           createInvitations send gen fmt now user_id projectId chapters message readers
               expiresAt circleName s = (Inr r, s') \<and>
           reader_invitations s' = reader_invitations s @ ic_invitations r \<and>
           map ri_reader_email (ic_invitations r) = map rd_email readers \<and>
           outbox s' = outbox s @ reqs \<and>
           map em_readerEmail reqs = map rd_email readers \<and>
           map em_accessToken reqs = map ri_access_token (ic_invitations r) \<and>
           ic_emailErrors r =
             (if failures send reqs = [] then None else Some (failures send reqs))"
proof -
  have own': "projectCheck s projectId user_id \<noteq> []"
    using own by (simp add: projectCheck_nonempty)
  have quota': "currentActive s projectId now + length readers \<le> 15"
    using quota by (simp add: currentActive_def)
  have "projectDetails s projectId \<noteq> []"
    unfolding projectDetails_nonempty using details by blast
  then obtain p u rest where pd: "projectDetails s projectId = (p, u) # rest"
    by (cases "projectDetails s projectId") auto
  define cx where
    "cx = invite_context fmt now user_id projectId chapters message expiresAt circleName p u"
  let ?rows = "expected_rows cx gen 0 (uuid_seq s) readers"
  let ?reqs = "expected_emails cx gen 0 readers"
  let ?errs = "failures send ?reqs"
  let ?s' = "s\<lparr>reader_invitations := reader_invitations s @ ?rows,
          uuid_seq := uuid_seq s + length readers, outbox := outbox s @ ?reqs\<rparr>"
  let ?r = "\<lparr>ic_invitations = ?rows,
              ic_emailErrors = (if ?errs = [] then None else Some ?errs)\<rparr>"
  have res: "createInvitations send gen fmt now user_id projectId chapters message readers
                   expiresAt circleName s = (Inr ?r, ?s')"
    unfolding cx_def
    by (rule createInvitations_fresh[where fmt = fmt and now = now and circleName = circleName,
              OF own' quota' pd fresh fit circle, unfolded Let_def])
  show ?thesis
    unfolding res
    by (intro exI[of _ ?r] exI[of _ ?s'] exI[of _ ?reqs])
       (simp add: expected_rows_emails expected_emails_readers expected_emails_tokens
          expected_rows_tokens)
qed

text \<open>Two readers are invited; the gateway cannot deliver to the first. Both rows are
  stored and the response lists the one failure.\<close>

theorem createInvitations_email_failures_witness:
  "\<exists>r s'. createInvitations ex_send ex_gen ex_fmt 50 7 1 [''A''] None ex_readers 500 None
             ex_store = (Inr r, s') \<and>
      map ri_reader_email (drop 1 (reader_invitations s')) =
        [Some ''sam@example.org'', Some ''uma@example.org''] \<and>
      ic_emailErrors r = Some [\<lparr>ee_reader = Some ''sam@example.org'', ee_error = ''SMTP down''\<rparr>]"
proof -
  have quota: "length (filter (\<lambda>ri. ri_project_id ri = 1 \<and>
                                         (ri_status ri = Pending \<or> ri_status ri = Accepted) \<and>
                                         50 < ri_expires_at ri)
                              (reader_invitations ex_store)) + length ex_readers \<le> 15"
    by (simp add: ex_readers_def ex_store_def)
  have fit: "\<forall>rd \<in> set ex_readers. fits255 (rd_name rd) \<and> fits255 (rd_email rd)"
    by (simp add: ex_readers_def)
  have circle: "length (or_default None (''Draft Review - '' @ ex_fmt 50)) \<le> 255"
    by (simp add: ex_fmt_def)
  have fresh: "fresh_tokens ex_gen 0 (length ex_readers) ex_store"
    by (simp add: ex_readers_def ex_store_def fresh_tokens_def ex_gen_def ex_invitation_def
          upt_conv_Cons)
  from createInvitations_email_failures[where fmt = ex_fmt and now = 50 and circleName = None
         and send = ex_send and chapters = "[''A'']" and message = None and expiresAt = 500,
         OF ex_owner(1) quota ex_owner(2) fit circle fresh]
  obtain r s' reqs where
    r: "createInvitations ex_send ex_gen ex_fmt 50 7 1 [''A''] None ex_readers 500 None
             ex_store = (Inr r, s')"
    and rows: "reader_invitations s' = reader_invitations ex_store @ ic_invitations r"
              "map ri_reader_email (ic_invitations r) = map rd_email ex_readers"
    and reqs: "map em_readerEmail reqs = map rd_email ex_readers"
    and errs: "ic_emailErrors r =
             (if failures ex_send reqs = [] then None else Some (failures ex_send reqs))"
    by blast
  from reqs obtain q1 q2 where q: "reqs = [q1, q2]"
      "em_readerEmail q1 = Some ''sam@example.org''" "em_readerEmail q2 = Some ''uma@example.org''"
    by (auto simp: ex_readers_def map_eq_Cons_conv)
  have f: "failures ex_send reqs = [\<lparr>ee_reader = Some ''sam@example.org'', ee_error = ''SMTP down''\<rparr>]"
    by (simp add: q failures_def ex_send_def)
  show ?thesis
    using r rows errs
    by (intro exI[of _ r] exI[of _ s']) (simp add: f ex_store_def ex_readers_def)
qed

subsection \<open>Resending an invitation\<close>

lemma ex_select_resend:
  "select_resend ex_store 10 7 = [(ex_invitation, ex_project, ex_user)]"
  "select_resend ex_revoked_store 10 7 = [(ex_invitation\<lparr>ri_status := Revoked\<rparr>, ex_project, ex_user)]"
  by (simp_all add: select_resend_def ex_store_def ex_revoked_store_def ex_read_store_def
        ex_invitation_def ex_project_def ex_user_def)

text \<open>
  Claim C7. For an invitation the caller owns, ResendInvitation checks expiry first and
  revocation second: it fails with the expired error when \<open>expires_at\<close> is in the past,
  fails with the revoked error when (not expired and) the status is \<open>revoked\<close>, and
  otherwise hands the gateway one email request carrying the invitation's stored access
  token, expiry and reader email, answering success or the send failure. In every outcome
  the invitation table is unchanged: no token is regenerated, no expiry extended, no status
  modified; the failing outcomes leave the whole store unchanged.
\<close>

theorem resendInvitation_outcomes:
  assumes sel: "select_resend s invitationId user_id = (inv_row, p, u) # rest"
  shows "(ri_expires_at inv_row < now \<longrightarrow>
            resendInvitation send now user_id invitationId s = (Inl CannotResendExpired, s)) \<and>
         (\<not> ri_expires_at inv_row < now \<and> ri_status inv_row = Revoked \<longrightarrow>
            resendInvitation send now user_id invitationId s = (Inl CannotResendRevoked, s)) \<and>
         (\<not> ri_expires_at inv_row < now \<and> ri_status inv_row \<noteq> Revoked \<longrightarrow>
            (\<exists>req. snd (resendInvitation send now user_id invitationId s)
                     = s\<lparr>outbox := outbox s @ [req]\<rparr> \<and>
                   em_accessToken req = ri_access_token inv_row \<and>
                   em_expiresAt req = ri_expires_at inv_row \<and>
                   em_readerEmail req = ri_reader_email inv_row \<and>
                   fst (resendInvitation send now user_id invitationId s)
                     = (case send req of None \<Rightarrow> Inr ()
                        | Some message \<Rightarrow> Inl (FailedToSendEmail message)))) \<and>
         reader_invitations (snd (resendInvitation send now user_id invitationId s))
           = reader_invitations s"
  using sel
  by (auto simp: resendInvitation_def Let_def split: option.splits)

theorem resendInvitation_outcomes_witness:
  "resendInvitation (\<lambda>q. None) 200 7 10 ex_store = (Inl CannotResendExpired, ex_store) \<and>
   resendInvitation (\<lambda>q. None) 50 7 10 ex_revoked_store
     = (Inl CannotResendRevoked, ex_revoked_store) \<and>
   fst (resendInvitation (\<lambda>q. None) 50 7 10 ex_store) = Inr () \<and>
   map em_accessToken (outbox (snd (resendInvitation (\<lambda>q. None) 50 7 10 ex_store))) = [''tok''] \<and>
   reader_invitations (snd (resendInvitation (\<lambda>q. None) 50 7 10 ex_store)) = [ex_invitation]"
proof -
  have A: "resendInvitation (\<lambda>q. None) 200 7 10 ex_store = (Inl CannotResendExpired, ex_store)"
    using resendInvitation_outcomes[OF ex_select_resend(1), of 200 "\<lambda>q. None"]
    by (simp add: ex_invitation_def)
  have B: "resendInvitation (\<lambda>q. None) 50 7 10 ex_revoked_store
     = (Inl CannotResendRevoked, ex_revoked_store)"
    using resendInvitation_outcomes[OF ex_select_resend(2), of 50 "\<lambda>q. None"]
    by (simp add: ex_invitation_def)
  have C: "fst (resendInvitation (\<lambda>q. None) 50 7 10 ex_store) = Inr () \<and>
   map em_accessToken (outbox (snd (resendInvitation (\<lambda>q. None) 50 7 10 ex_store))) = [''tok''] \<and>
   reader_invitations (snd (resendInvitation (\<lambda>q. None) 50 7 10 ex_store)) = [ex_invitation]"
    using resendInvitation_outcomes[OF ex_select_resend(1), of 50 "\<lambda>q. None"]
    by (auto simp: ex_invitation_def ex_store_def)
  from A B C show ?thesis by blast
qed

subsection \<open>Importing a marker\<close>

lemma join_map_left:
  assumes "\<And>x. P (g x) = P x"
      and "\<And>x. F (g x) = map (\<lambda>(a, b). (g a, b)) (F x)"
  shows "concat (map F (filter P (map g xs))) =
         map (\<lambda>(a, b). (g a, b)) (concat (map F (filter P xs)))"
  by (induction xs) (simp_all add: assms)

lemma select_import_mark_imported:
  "select_import (mark_imported k now s) markerId user_id =
     map (\<lambda>(rm, ri). (if rm_id rm = k
                       then rm\<lparr>rm_imported_to_project := True, rm_imported_at := Some now,
                               rm_updated_at := now\<rparr>
                       else rm, ri))
       (select_import s markerId user_id)"
proof -
  define g :: "marker \<Rightarrow> marker" where "g = (\<lambda>rm. if rm_id rm = k
                    then rm\<lparr>rm_imported_to_project := True, rm_imported_at := Some now,
                            rm_updated_at := now\<rparr>
                    else rm)"
  define F :: "marker \<Rightarrow> (marker \<times> invitation) list" where "F = (\<lambda>rm. concat (map (\<lambda>ri. map (\<lambda>p. (rm, ri))
                      (filter (\<lambda>p. p_project_id p = ri_project_id ri \<and> p_user_id p = user_id)
                         (projects s)))
                 (filter (\<lambda>ri. ri_id ri = rm_invitation_id rm) (reader_invitations s))))"
  have ids: "rm_id (g rm) = rm_id rm" "rm_invitation_id (g rm) = rm_invitation_id rm" for rm
    by (simp_all add: g_def)
  have F: "F (g rm) = map (\<lambda>(a, b). (g a, b)) (F rm)" for rm
    by (simp add: F_def ids map_concat o_def)
  have "concat (map F (filter (\<lambda>rm. rm_id rm = markerId) (map g (reader_markers s)))) =
        map (\<lambda>(a, b). (g a, b))
          (concat (map F (filter (\<lambda>rm. rm_id rm = markerId) (reader_markers s))))"
    by (rule join_map_left) (simp_all add: ids F)
  then show ?thesis
    unfolding F_def g_def by (simp add: select_import_def mark_imported_def)
qed

lemma ex_select_import:
  "select_import ex_read_store 20 7 = [(ex_marker, ex_invitation\<lparr>ri_status := Accepted\<rparr>)]"
  by (simp add: select_import_def ex_read_store_def ex_store_def ex_marker_def
        ex_invitation_def ex_project_def)

text \<open>
  Claim C8, as stated, fails in one respect: the two calls do not differ in the import
  timestamp only. Every UPDATE of a marker row fires the table's trigger, which stamps
  \<open>updated_at\<close>; after imports at times 60 and 70 the marker's \<open>updated_at\<close> reads 60
  and then 70, like its \<open>imported_at\<close>.
\<close>

theorem importMarker_updated_at_counterexample:
  "map rm_updated_at (reader_markers (snd (importMarker 60 7 20 ex_read_store))) = [60] \<and>
   map rm_imported_at (reader_markers (snd (importMarker 60 7 20 ex_read_store))) = [Some 60] \<and>
   map rm_updated_at
     (reader_markers (snd (importMarker 70 7 20 (snd (importMarker 60 7 20 ex_read_store)))))
     = [70] \<and>
   map rm_imported_at
     (reader_markers (snd (importMarker 70 7 20 (snd (importMarker 60 7 20 ex_read_store)))))
     = [Some 70]"
proof -
  have 1: "snd (importMarker 60 7 20 ex_read_store) = mark_imported 20 60 ex_read_store"
    by (simp add: importMarker_def ex_select_import)
  have 2: "snd (importMarker 70 7 20 (mark_imported 20 60 ex_read_store)) =
           mark_imported 20 70 (mark_imported 20 60 ex_read_store)"
    by (simp add: importMarker_def select_import_mark_imported ex_select_import)
  have ms: "reader_markers ex_read_store = [ex_marker]"
    by (simp add: ex_read_store_def)
  show ?thesis
    unfolding 1 2 by (simp add: mark_imported_def ms ex_marker_def)
qed

text \<open>
  Claim C8, amended. For a marker whose invitation's project belongs to the caller,
  ImportMarker called twice (at times \<open>t1\<close> and \<open>t2\<close>) succeeds both times with the same
  annotation, whose text is the reader's name in brackets, a line break, and the marker
  text. After the first call the marker is flagged imported at \<open>t1\<close>; the second call
  changes nothing but two time stamps of the marker's row, \<open>imported_at\<close> and the
  trigger-maintained \<open>updated_at\<close>, both set to \<open>t2\<close>, so the flag stays set.
\<close>

theorem importMarker_idempotent:
  assumes sel: "select_import s markerId user_id = (m, ri) # rest"
  shows "\<exists>a s1 s2.
           importMarker t1 user_id markerId s = (Inr a, s1) \<and>
           importMarker t2 user_id markerId s1 = (Inr a, s2) \<and>
           an_text a = ''['' @ interpolate (ri_reader_name ri) @ '']'' @ [CHR 0x0A] @
                       interpolate (rm_marker_text m) \<and>
           (\<forall>rm \<in> set (reader_markers s1).
               rm_id rm = markerId \<longrightarrow>
                 rm_imported_to_project rm \<and> rm_imported_at rm = Some t1) \<and>
           s2 = s1\<lparr>reader_markers :=
                     map (\<lambda>rm. if rm_id rm = markerId
                                then rm\<lparr>rm_imported_at := Some t2, rm_updated_at := t2\<rparr>
                                else rm)
                       (reader_markers s1)\<rparr>"
proof -
  have mid: "rm_id m = markerId"
  proof -
    have "(m, ri) \<in> set (select_import s markerId user_id)" by (simp add: sel)
    then show ?thesis by (auto simp: select_import_def)
  qed
  define a where "a = \<lparr>an_id = rm_marker_id m, an_type = rm_marker_type m,
                an_text = ''['' @ interpolate (ri_reader_name ri) @ '']'' @ [CHR 0x0A] @
                          interpolate (rm_marker_text m),
                an_highlightedText = rm_highlighted_text m,
                an_positionData = rm_position_data m,
                an_chapterId = rm_chapter_id m,
                an_sceneId = rm_scene_id m, an_isReaderFeedback = True,
                an_readerName = ri_reader_name ri,
                an_createdAt = rm_created_at m\<rparr>"
  define s1 where "s1 = mark_imported markerId t1 s"
  define s2 where "s2 = mark_imported markerId t2 s1"
  let ?m1 = "m\<lparr>rm_imported_to_project := True, rm_imported_at := Some t1, rm_updated_at := t1\<rparr>"
  have "\<exists>rest1. select_import s1 markerId user_id = (?m1, ri) # rest1"
    unfolding s1_def by (simp add: select_import_mark_imported sel mid)
  then obtain rest1 where sel1: "select_import s1 markerId user_id = (?m1, ri) # rest1" ..
  have r1: "importMarker t1 user_id markerId s = (Inr a, s1)"
    by (simp add: importMarker_def sel a_def s1_def)
  have r2: "importMarker t2 user_id markerId s1 = (Inr a, s2)"
    by (simp add: importMarker_def sel1 a_def s2_def)
  have atext: "an_text a = ''['' @ interpolate (ri_reader_name ri) @ '']'' @ [CHR 0x0A] @
                       interpolate (rm_marker_text m)"
    by (simp add: a_def)
  have flag: "\<forall>rm \<in> set (reader_markers s1).
               rm_id rm = markerId \<longrightarrow>
                 rm_imported_to_project rm \<and> rm_imported_at rm = Some t1"
  proof (intro ballI impI)
    fix rm
    assume mem: "rm \<in> set (reader_markers s1)" and rid: "rm_id rm = markerId"
    let ?g = "\<lambda>rm. if rm_id rm = markerId
                    then rm\<lparr>rm_imported_to_project := True, rm_imported_at := Some t1,
                            rm_updated_at := t1\<rparr>
                    else rm"
    from mem have "rm \<in> ?g ` set (reader_markers s)"
      by (simp add: s1_def mark_imported_def)
    then obtain r0 where r0: "rm = ?g r0" by (rule imageE)
    show "rm_imported_to_project rm \<and> rm_imported_at rm = Some t1"
    proof (cases "rm_id r0 = markerId")
      case True
      then show ?thesis by (simp add: r0)
    next
      case False
      with rid r0 show ?thesis by simp
    qed
  qed
  have again: "\<And>rm. rm \<in> set (reader_markers s1) \<Longrightarrow> rm_id rm = markerId \<Longrightarrow>
           rm\<lparr>rm_imported_to_project := True, rm_imported_at := Some t2, rm_updated_at := t2\<rparr>
             = rm\<lparr>rm_imported_at := Some t2, rm_updated_at := t2\<rparr>"
    using flag by simp
  have twice: "s2 = s1\<lparr>reader_markers :=
                     map (\<lambda>rm. if rm_id rm = markerId
                                then rm\<lparr>rm_imported_at := Some t2, rm_updated_at := t2\<rparr>
                                else rm)
                       (reader_markers s1)\<rparr>"
    unfolding s2_def mark_imported_def[of markerId t2 s1]
    using again by (intro arg_cong[where f = "\<lambda>ms. s1\<lparr>reader_markers := ms\<rparr>"] map_cong) auto
  show ?thesis
    by (intro exI[of _ a] exI[of _ s1] exI[of _ s2] conjI r1 r2 atext flag twice)
qed

theorem importMarker_idempotent_witness:
  "\<exists>a s1 s2.
     importMarker 60 7 20 ex_read_store = (Inr a, s1) \<and>
     importMarker 70 7 20 s1 = (Inr a, s2) \<and>
     an_text a = ''[Rea]'' @ [CHR 0x0A] @ ''Nice'' \<and>
     map rm_imported_to_project (reader_markers s2) = [True] \<and>
     map rm_imported_at (reader_markers s2) = [Some 70]"
  using importMarker_idempotent[OF ex_select_import, of 60 70]
proof (elim exE conjE)
  fix a s1 s2
  assume 1: "importMarker 60 7 20 ex_read_store = (Inr a, s1)"
     and 2: "importMarker 70 7 20 s1 = (Inr a, s2)"
     and 3: "an_text a = ''['' @ interpolate (ri_reader_name (ex_invitation\<lparr>ri_status := Accepted\<rparr>))
                      @ '']'' @ [CHR 0x0A] @ interpolate (rm_marker_text ex_marker)"
     and 5: "s2 = s1\<lparr>reader_markers :=
                     map (\<lambda>rm. if rm_id rm = 20
                                then rm\<lparr>rm_imported_at := Some 70, rm_updated_at := 70\<rparr>
                                else rm)
                       (reader_markers s1)\<rparr>"
  have "snd (importMarker 60 7 20 ex_read_store) = mark_imported 20 60 ex_read_store"
    by (simp add: importMarker_def ex_select_import)
  with 1 have s1: "s1 = mark_imported 20 60 ex_read_store" by simp
  have ms: "reader_markers s1 = [ex_marker\<lparr>rm_imported_to_project := True,
              rm_imported_at := Some 60, rm_updated_at := 60\<rparr>]"
    unfolding s1 by (simp add: mark_imported_def ex_read_store_def ex_marker_def)
  have atext: "an_text a = ''[Rea]'' @ [CHR 0x0A] @ ''Nice''"
    using 3 by (simp add: ex_invitation_def ex_marker_def)
  have fl: "map rm_imported_to_project (reader_markers s2) = [True]"
           "map rm_imported_at (reader_markers s2) = [Some 70]"
    by (simp_all add: 5 ms ex_marker_def)
  show ?thesis
    by (intro exI[of _ a] exI[of _ s1] exI[of _ s2] conjI 1 2 atext fl)
qed

subsection \<open>Progress and notes\<close>

lemma filter_key_unique:
  "distinct (map f xs) \<Longrightarrow> x \<in> set xs \<Longrightarrow> filter (\<lambda>y. f y = f x) xs = [x]"
proof (induction xs)
  case Nil
  then show ?case by simp
next
  case (Cons a xs)
  show ?case
  proof (cases "a = x")
    case True
    have "\<forall>y \<in> set xs. f y \<noteq> f x"
      using Cons.prems(1) True by (auto simp: image_iff)
    then have "filter (\<lambda>y. f y = f x) xs = []"
      by (simp add: filter_empty_conv)
    with True show ?thesis by simp
  next
    case False
    with Cons.prems have mem: "x \<in> set xs" by simp
    then have "f a \<noteq> f x"
      using Cons.prems(1) by (auto simp: image_iff)
    with Cons.IH[OF _ mem] Cons.prems(1) show ?thesis by simp
  qed
qed

text \<open>With unique tokens, the lookup by an invitation's token finds that invitation, and
  the lookup by a token no invitation carries finds nothing.\<close>

lemma by_token_row:
  "distinct (map ri_access_token (reader_invitations s)) \<Longrightarrow>
   inv_row \<in> set (reader_invitations s) \<Longrightarrow>
   by_token s (ri_access_token inv_row) = [inv_row]"
  unfolding by_token_def by (rule filter_key_unique)

lemma by_token_unknown:
  "unknown \<notin> ri_access_token ` set (reader_invitations s) \<Longrightarrow> by_token s unknown = []"
  unfolding by_token_def by (simp add: filter_empty_conv image_iff) metis

lemma ex_revoked_rows:
  "reader_invitations ex_revoked_store = [ex_invitation\<lparr>ri_status := Revoked\<rparr>]"
  by (simp add: ex_revoked_store_def ex_read_store_def ex_store_def)

lemma ex_chapter_uuid_in: "uuid_in ex_chapter_uuid = Some ex_chapter_uuid"
  by code_simp

lemma ex_no_uuid: "uuid_in ''D'' = None"
  by code_simp

text \<open>
  Claim C10. UpdateProgress and UpdateNotes look the token up and check nothing else about
  the invitation. For any invitation row, whatever its status and expiry (revoked,
  expired, past \<open>expires_at\<close>), a call with that row's token and values the session columns
  hold (a chapter id that is a UUID or null, a percentage within 32 bits or null) answers
  success, rewrites every session row of that invitation with the submitted values and the
  current time, and sets the invitation's \<open>last_activity_at\<close> to the current time. A
  token that no invitation carries is answered 404 with the store unchanged; a chapter id
  or percentage the column refuses is answered 500 with the store unchanged. (Tokens are
  unique, as the store enforces.)
\<close>

theorem progress_and_notes_ignore_status:
  assumes uniq: "distinct (map ri_access_token (reader_invitations s))"
      and row: "inv_row \<in> set (reader_invitations s)"
  shows "(uuid_null chapterId = Some last_chapter_id \<and> int4_null pct \<longrightarrow>
            fst (updateProgress now (ri_access_token inv_row) chapterId pct s) = Inr () \<and>
            reader_sessions (snd (updateProgress now (ri_access_token inv_row) chapterId pct s)) =
              map (\<lambda>rs. if rs_invitation_id rs = ri_id inv_row
                         then rs\<lparr>rs_last_chapter_id := last_chapter_id,
                                 rs_completion_percentage := pct, rs_last_activity_at := now\<rparr>
                         else rs) (reader_sessions s) \<and>
            reader_invitations
                (snd (updateProgress now (ri_access_token inv_row) chapterId pct s)) =
              map (\<lambda>ri. if ri_id ri = ri_id inv_row
                         then ri\<lparr>ri_last_activity_at := Some now, ri_updated_at := now\<rparr>
                         else ri) (reader_invitations s)) \<and>
         (uuid_null chapterId = None \<or> \<not> int4_null pct \<longrightarrow>
            updateProgress now (ri_access_token inv_row) chapterId pct s =
              (Inl (ServerError ''Failed to update progress''), s)) \<and>
         (\<exists>text. fst (updateNotes now (ri_access_token inv_row) new_notes s) = Inr text) \<and>
         reader_sessions (snd (updateNotes now (ri_access_token inv_row) new_notes s)) =
           map (\<lambda>rs. if rs_invitation_id rs = ri_id inv_row
                      then rs\<lparr>rs_notes := new_notes, rs_last_activity_at := now\<rparr>
                      else rs) (reader_sessions s) \<and>
         reader_invitations (snd (updateNotes now (ri_access_token inv_row) new_notes s)) =
           map (\<lambda>ri. if ri_id ri = ri_id inv_row
                      then ri\<lparr>ri_last_activity_at := Some now, ri_updated_at := now\<rparr>
                      else ri) (reader_invitations s) \<and>
         (unknown \<notin> ri_access_token ` set (reader_invitations s) \<longrightarrow>
            updateProgress now unknown chapterId pct s = (Inl InvalidAccessToken, s) \<and>
            updateNotes now unknown new_notes s = (Inl InvalidAccessToken, s))"
proof -
  have tok: "by_token s (ri_access_token inv_row) = [inv_row]"
    by (rule by_token_row[OF uniq row])
  have 1: "uuid_null chapterId = Some last_chapter_id \<and> int4_null pct \<longrightarrow>
            fst (updateProgress now (ri_access_token inv_row) chapterId pct s) = Inr () \<and>
            reader_sessions (snd (updateProgress now (ri_access_token inv_row) chapterId pct s)) =
              map (\<lambda>rs. if rs_invitation_id rs = ri_id inv_row
                         then rs\<lparr>rs_last_chapter_id := last_chapter_id,
                                 rs_completion_percentage := pct, rs_last_activity_at := now\<rparr>
                         else rs) (reader_sessions s) \<and>
            reader_invitations
                (snd (updateProgress now (ri_access_token inv_row) chapterId pct s)) =
              map (\<lambda>ri. if ri_id ri = ri_id inv_row
                         then ri\<lparr>ri_last_activity_at := Some now, ri_updated_at := now\<rparr>
                         else ri) (reader_invitations s)"
    by (simp add: updateProgress_def tok touch_last_activity_def update_invitations_def
          update_sessions_def)
  have 2: "uuid_null chapterId = None \<or> \<not> int4_null pct \<longrightarrow>
            updateProgress now (ri_access_token inv_row) chapterId pct s =
              (Inl (ServerError ''Failed to update progress''), s)"
    by (cases "uuid_null chapterId") (simp_all add: updateProgress_def tok)
  have 3: "(\<exists>text. fst (updateNotes now (ri_access_token inv_row) new_notes s) = Inr text) \<and>
         reader_sessions (snd (updateNotes now (ri_access_token inv_row) new_notes s)) =
           map (\<lambda>rs. if rs_invitation_id rs = ri_id inv_row
                      then rs\<lparr>rs_notes := new_notes, rs_last_activity_at := now\<rparr>
                      else rs) (reader_sessions s) \<and>
         reader_invitations (snd (updateNotes now (ri_access_token inv_row) new_notes s)) =
           map (\<lambda>ri. if ri_id ri = ri_id inv_row
                      then ri\<lparr>ri_last_activity_at := Some now, ri_updated_at := now\<rparr>
                      else ri) (reader_invitations s)"
    by (simp add: updateNotes_def tok touch_last_activity_def update_invitations_def
          update_sessions_def Let_def)
  have 4: "unknown \<notin> ri_access_token ` set (reader_invitations s) \<longrightarrow>
            updateProgress now unknown chapterId pct s = (Inl InvalidAccessToken, s) \<and>
            updateNotes now unknown new_notes s = (Inl InvalidAccessToken, s)"
    by (simp add: updateProgress_def updateNotes_def by_token_unknown)
  from 1 2 3 4 show ?thesis by (intro conjI) simp_all
qed

text \<open>The invitation of the example is revoked and, at time 200, past its expiry of 100.
  Progress on a chapter with a UUID and new notes are accepted and written; a chapter id
  that is no UUID, a percentage beyond 32 bits and an unknown token are refused.\<close>

theorem progress_and_notes_ignore_status_witness:
  "ri_status (hd (reader_invitations ex_revoked_store)) = Revoked \<and>
   ri_expires_at (hd (reader_invitations ex_revoked_store)) < 200 \<and>
   fst (updateProgress 200 ''tok'' (Some ex_chapter_uuid) (Some 80) ex_revoked_store) = Inr () \<and>
   map rs_last_chapter_id
     (reader_sessions (snd (updateProgress 200 ''tok'' (Some ex_chapter_uuid) (Some 80)
        ex_revoked_store))) = [Some ex_chapter_uuid] \<and>
   map rs_completion_percentage
     (reader_sessions (snd (updateProgress 200 ''tok'' (Some ex_chapter_uuid) (Some 80)
        ex_revoked_store))) = [Some 80] \<and>
   map ri_last_activity_at
     (reader_invitations (snd (updateProgress 200 ''tok'' (Some ex_chapter_uuid) (Some 80)
        ex_revoked_store))) = [Some 200] \<and>
   updateProgress 200 ''tok'' (Some ''D'') (Some 80) ex_revoked_store =
     (Inl (ServerError ''Failed to update progress''), ex_revoked_store) \<and>
   updateProgress 200 ''tok'' (Some ex_chapter_uuid) (Some 2147483648) ex_revoked_store =
     (Inl (ServerError ''Failed to update progress''), ex_revoked_store) \<and>
   updateProgress 200 ''nobody'' (Some ex_chapter_uuid) (Some 80) ex_revoked_store =
     (Inl InvalidAccessToken, ex_revoked_store) \<and>
   map rs_notes (reader_sessions (snd (updateNotes 200 ''tok'' (Some ''late'') ex_revoked_store)))
     = [Some ''late'']"
proof -
  let ?row = "ex_invitation\<lparr>ri_status := Revoked\<rparr>"
  have uniq: "distinct (map ri_access_token (reader_invitations ex_revoked_store))"
    by (simp add: ex_revoked_rows)
  have row: "?row \<in> set (reader_invitations ex_revoked_store)"
    by (simp add: ex_revoked_rows)
  have tok: "ri_access_token ?row = ''tok''" "ri_id ?row = 10"
    by (simp_all add: ex_invitation_def)
  have unknown: "''nobody'' \<notin> ri_access_token ` set (reader_invitations ex_revoked_store)"
    by (simp add: ex_revoked_rows ex_invitation_def)
  have st: "ri_status (hd (reader_invitations ex_revoked_store)) = Revoked \<and>
            ri_expires_at (hd (reader_invitations ex_revoked_store)) < 200"
    by (simp add: ex_revoked_rows ex_invitation_def)
  have sessions: "reader_sessions ex_revoked_store = [ex_session]"
    by (simp add: ex_revoked_store_def ex_read_store_def)
  have sid: "rs_invitation_id ex_session = 10"
    by (simp add: ex_session_def)
  have good: "uuid_null (Some ex_chapter_uuid) = Some (Some ex_chapter_uuid) \<and>
              int4_null (Some 80)"
    by (simp add: ex_chapter_uuid_in)
  have bad1: "uuid_null (Some ''D'') = None \<or> \<not> int4_null (Some 80)"
    by (simp add: ex_no_uuid)
  have bad2: "uuid_null (Some ex_chapter_uuid) = None \<or> \<not> int4_null (Some 2147483648)"
    by simp
  note T = progress_and_notes_ignore_status[OF uniq row, unfolded tok]
  have A: "fst (updateProgress 200 ''tok'' (Some ex_chapter_uuid) (Some 80) ex_revoked_store)
             = Inr () \<and>
      map rs_last_chapter_id
        (reader_sessions (snd (updateProgress 200 ''tok'' (Some ex_chapter_uuid) (Some 80)
           ex_revoked_store))) = [Some ex_chapter_uuid] \<and>
      map rs_completion_percentage
        (reader_sessions (snd (updateProgress 200 ''tok'' (Some ex_chapter_uuid) (Some 80)
           ex_revoked_store))) = [Some 80] \<and>
      map ri_last_activity_at
        (reader_invitations (snd (updateProgress 200 ''tok'' (Some ex_chapter_uuid) (Some 80)
           ex_revoked_store))) = [Some 200]"
    using T[of "Some ex_chapter_uuid" "Some ex_chapter_uuid" "Some 80" 200 None "''nobody''"] good
    by (simp add: sessions sid ex_revoked_rows tok)
  have B: "updateProgress 200 ''tok'' (Some ''D'') (Some 80) ex_revoked_store =
     (Inl (ServerError ''Failed to update progress''), ex_revoked_store)"
    using T[of "Some ''D''" None "Some 80" 200 None "''nobody''"] bad1 by blast
  have C: "updateProgress 200 ''tok'' (Some ex_chapter_uuid) (Some 2147483648) ex_revoked_store =
     (Inl (ServerError ''Failed to update progress''), ex_revoked_store)"
    using T[of "Some ex_chapter_uuid" None "Some 2147483648" 200 None "''nobody''"] bad2
    by blast
  have D: "updateProgress 200 ''nobody'' (Some ex_chapter_uuid) (Some 80) ex_revoked_store =
     (Inl InvalidAccessToken, ex_revoked_store)"
    using T[of "Some ex_chapter_uuid" None "Some 80" 200 None "''nobody''"] unknown by blast
  have E: "map rs_notes (reader_sessions (snd (updateNotes 200 ''tok'' (Some ''late'')
              ex_revoked_store))) = [Some ''late'']"
    using T[of None None None 200 "Some ''late''" "''nobody''"]
    by (simp add: sessions sid)
  from st A B C D E show ?thesis by (intro conjI) simp_all
qed

subsection \<open>Circles\<close>

text \<open>
  Claim C5, as stated, fails: the chapter lists are compared as JSON arrays, so the same
  chapter ids in another order do not match. The invitation of the example store grants
  chapters B, D; renaming or archiving the circle given as D, B finds no row.
\<close>

theorem circle_order_counterexample:
  "set [''D'', ''B''] = set (ri_chapters_accessible ex_invitation) \<and>
   ri_project_id ex_invitation = 1 \<and> ri_user_id ex_invitation = 7 \<and>
   renameCircle 50 7 1 [''D'', ''B''] ''Beta readers'' ex_store = (Inl CircleNotFound, ex_store) \<and>
   archiveCircle 50 7 1 [''D'', ''B''] True ex_store = (Inl CircleNotFound, ex_store)"
  by (simp add: renameCircle_def archiveCircle_def in_circle_def update_invitations_def
        varchar_def ex_store_def ex_invitation_def ex_project_def Let_def insert_commute)

text \<open>
  Claim C5, amended. RenameCircle (given a name of at most 255 characters, which the
  column \<open>circle_name\<close> holds) and ArchiveCircle rewrite exactly the invitations of the
  given project and owner (the project being owned by the same user) whose
  \<open>chapters_accessible\<close> is the supplied list itself, the same ids in the same order;
  every other row is left as it is; and they fail with the not-found error exactly when no
  row matches. A name the column refuses, for a circle that has rows, is answered 500 and
  nothing is renamed.
\<close>

theorem circle_update_exact:
  "(length circleName \<le> 255 \<longrightarrow>
      reader_invitations
          (snd (renameCircle now user_id projectId chaptersAccessible circleName s)) =
        map (\<lambda>ri. if in_circle s user_id projectId chaptersAccessible ri
                   then ri\<lparr>ri_circle_name := circleName, ri_updated_at := now\<rparr> else ri)
          (reader_invitations s) \<and>
      (fst (renameCircle now user_id projectId chaptersAccessible circleName s)
           = Inl CircleNotFound
         \<longleftrightarrow> (\<forall>ri \<in> set (reader_invitations s).
                 \<not> in_circle s user_id projectId chaptersAccessible ri))) \<and>
   (varchar 255 circleName = None \<and>
    (\<exists>ri \<in> set (reader_invitations s). in_circle s user_id projectId chaptersAccessible ri) \<longrightarrow>
      renameCircle now user_id projectId chaptersAccessible circleName s =
        (Inl (ServerError ''Failed to update circle name''), s)) \<and>
   reader_invitations (snd (archiveCircle now user_id projectId chaptersAccessible archived s)) =
     map (\<lambda>ri. if in_circle s user_id projectId chaptersAccessible ri
                then ri\<lparr>ri_archived := archived, ri_updated_at := now\<rparr> else ri)
       (reader_invitations s) \<and>
   (fst (archiveCircle now user_id projectId chaptersAccessible archived s) = Inl CircleNotFound
      \<longleftrightarrow> (\<forall>ri \<in> set (reader_invitations s).
              \<not> in_circle s user_id projectId chaptersAccessible ri)) \<and>
   (in_circle s user_id projectId chaptersAccessible ri \<longleftrightarrow>
      ri_project_id ri = projectId \<and> ri_user_id ri = user_id \<and>
      (\<exists>p \<in> set (projects s). p_project_id p = projectId \<and> p_user_id p = user_id) \<and>
      ri_chapters_accessible ri = chaptersAccessible)"
proof -
  have none: "(filter P xs = []) = (\<forall>x \<in> set xs. \<not> P x)" for P :: "invitation \<Rightarrow> bool" and xs
    by (simp add: filter_empty_conv)
  have 1: "length circleName \<le> 255 \<longrightarrow>
      reader_invitations
          (snd (renameCircle now user_id projectId chaptersAccessible circleName s)) =
        map (\<lambda>ri. if in_circle s user_id projectId chaptersAccessible ri
                   then ri\<lparr>ri_circle_name := circleName, ri_updated_at := now\<rparr> else ri)
          (reader_invitations s) \<and>
      (fst (renameCircle now user_id projectId chaptersAccessible circleName s)
           = Inl CircleNotFound
         \<longleftrightarrow> (\<forall>ri \<in> set (reader_invitations s).
                 \<not> in_circle s user_id projectId chaptersAccessible ri))"
    by (simp add: renameCircle_def varchar_fits update_invitations_def Let_def none)
  have 2: "varchar 255 circleName = None \<and>
    (\<exists>ri \<in> set (reader_invitations s). in_circle s user_id projectId chaptersAccessible ri) \<longrightarrow>
      renameCircle now user_id projectId chaptersAccessible circleName s =
        (Inl (ServerError ''Failed to update circle name''), s)"
    by (simp add: renameCircle_def)
  have 3: "reader_invitations (snd (archiveCircle now user_id projectId chaptersAccessible archived s)) =
     map (\<lambda>ri. if in_circle s user_id projectId chaptersAccessible ri
                then ri\<lparr>ri_archived := archived, ri_updated_at := now\<rparr> else ri)
       (reader_invitations s)"
    by (simp add: archiveCircle_def update_invitations_def Let_def)
  have 4: "fst (archiveCircle now user_id projectId chaptersAccessible archived s) = Inl CircleNotFound
      \<longleftrightarrow> (\<forall>ri \<in> set (reader_invitations s).
              \<not> in_circle s user_id projectId chaptersAccessible ri)"
    by (simp add: archiveCircle_def Let_def none)
  have 5: "in_circle s user_id projectId chaptersAccessible ri \<longleftrightarrow>
      ri_project_id ri = projectId \<and> ri_user_id ri = user_id \<and>
      (\<exists>p \<in> set (projects s). p_project_id p = projectId \<and> p_user_id p = user_id) \<and>
      ri_chapters_accessible ri = chaptersAccessible"
    unfolding in_circle_def by metis
  from 1 2 3 4 5 show ?thesis by (intro conjI)
qed

text \<open>The circle of chapters B, D is renamed and archived; a name of 256 letters is refused
  and the row keeps its name.\<close>

theorem circle_update_exact_witness:
  "fst (renameCircle 50 7 1 [''B'', ''D''] ''Beta readers'' ex_store) \<noteq> Inl CircleNotFound \<and>
   map ri_circle_name
     (reader_invitations (snd (renameCircle 50 7 1 [''B'', ''D''] ''Beta readers'' ex_store)))
     = [''Beta readers''] \<and>
   renameCircle 50 7 1 [''B'', ''D''] (replicate 256 (CHR ''b'')) ex_store =
     (Inl (ServerError ''Failed to update circle name''), ex_store) \<and>
   fst (archiveCircle 50 7 1 [''B'', ''D''] True ex_store) \<noteq> Inl CircleNotFound \<and>
   map ri_archived
     (reader_invitations (snd (archiveCircle 50 7 1 [''B'', ''D''] True ex_store))) = [True]"
proof -
  have m: "in_circle ex_store 7 1 [''B'', ''D''] ex_invitation"
    using circle_update_exact[of "''x''" 50 7 1 "[''B'', ''D'']" ex_store True ex_invitation]
    by (simp add: ex_store_def ex_invitation_def ex_project_def)
  have rows: "reader_invitations ex_store = [ex_invitation]"
    by (simp add: ex_store_def)
  have long: "varchar 255 (replicate 256 (CHR ''b'')) = None"
    by (simp add: varchar_def list_all_iff)
  have A: "fst (renameCircle 50 7 1 [''B'', ''D''] ''Beta readers'' ex_store) \<noteq> Inl CircleNotFound \<and>
   map ri_circle_name
     (reader_invitations (snd (renameCircle 50 7 1 [''B'', ''D''] ''Beta readers'' ex_store)))
     = [''Beta readers''] \<and>
   fst (archiveCircle 50 7 1 [''B'', ''D''] True ex_store) \<noteq> Inl CircleNotFound \<and>
   map ri_archived
     (reader_invitations (snd (archiveCircle 50 7 1 [''B'', ''D''] True ex_store))) = [True]"
    using circle_update_exact[of "''Beta readers''" 50 7 1 "[''B'', ''D'']" ex_store True
            ex_invitation] m
    by (simp add: rows)
  have B: "renameCircle 50 7 1 [''B'', ''D''] (replicate 256 (CHR ''b'')) ex_store =
     (Inl (ServerError ''Failed to update circle name''), ex_store)"
    using circle_update_exact[of "replicate 256 (CHR ''b'')" 50 7 1 "[''B'', ''D'']" ex_store
            True ex_invitation] m long
    by (simp add: rows)
  from A B show ?thesis by simp
qed

subsection \<open>Creating markers\<close>




subsection \<open>Revocation\<close>

lemma nth_status:
  "map ri_status xs' = map ri_status xs \<Longrightarrow> i < length xs \<Longrightarrow>
   ri_status (xs' ! i) = ri_status (xs ! i)"
  by (metis length_map nth_map)

lemma update_invitations_nth:
  "i < length (reader_invitations s) \<Longrightarrow>
   reader_invitations (update_invitations c f now s) ! i =
     (if c (reader_invitations s ! i) then (f (reader_invitations s ! i))\<lparr>ri_updated_at := now\<rparr>
      else reader_invitations s ! i)"
  by (simp add: update_invitations_def)

lemma update_invitations_statuses:
  assumes "\<And>ri. ri_status (f ri) = ri_status ri"
  shows "map ri_status (reader_invitations (update_invitations c f now s)) =
         map ri_status (reader_invitations s)"
  by (simp add: update_invitations_def assms)

lemma touch_statuses:
  "map ri_status (reader_invitations (touch_last_activity k now s)) =
   map ri_status (reader_invitations s)"
  unfolding touch_last_activity_def by (rule update_invitations_statuses) simp

lemma invite_readers_extends:
  "\<exists>extra. reader_invitations (snd (invite_readers send gen cx rds k invs errs s)) =
            reader_invitations s @ extra"
proof (induction rds arbitrary: k invs errs s)
  case Nil
  then show ?case by simp
next
  case (Cons rd rest)
  show ?case
  proof (cases "insert_invitation (new_invitation cx (gen k) rd) s")
    case None
    then show ?thesis by simp
  next
    case (Some res)
    obtain row s1 where res: "res = (row, s1)" by (cases res)
    have s1: "reader_invitations s1 = reader_invitations s @ [row]"
      using Some unfolding res
      by (auto simp: insert_invitation_def Let_def split: if_splits option.splits)
    let ?s2 = "s1\<lparr>outbox := outbox s1 @ [invitation_email cx (gen k) rd]\<rparr>"
    have s2: "reader_invitations ?s2 = reader_invitations s @ [row]"
      by (simp add: s1)
    show ?thesis
    proof (cases "send (invitation_email cx (gen k) rd)")
      case None
      from Cons.IH[of "k + 1" "invs @ [row]" errs ?s2] obtain extra where
        "reader_invitations (snd (invite_readers send gen cx rest (k + 1) (invs @ [row]) errs ?s2))
           = reader_invitations ?s2 @ extra" ..
      then show ?thesis
        using Some None unfolding res by (simp add: s2)
    next
      case (Some m)
      from Cons.IH[of "k + 1" "invs @ [row]"
             "errs @ [\<lparr>ee_reader = rd_email rd, ee_error = m\<rparr>]" ?s2] obtain extra where
        "reader_invitations (snd (invite_readers send gen cx rest (k + 1) (invs @ [row])
             (errs @ [\<lparr>ee_reader = rd_email rd, ee_error = m\<rparr>]) ?s2))
           = reader_invitations ?s2 @ extra" ..
      then show ?thesis
        using \<open>insert_invitation (new_invitation cx (gen k) rd) s = Some res\<close> Some
        unfolding res by (simp add: s2)
    qed
  qed
qed

lemma createInvitations_extends:
  "\<exists>extra. reader_invitations (snd (createInvitations send gen fmt now user_id projectId
               chapters message readers expiresAt circleName s)) =
            reader_invitations s @ extra"
proof -
  consider (a) "projectCheck s projectId user_id = []"
    | (b) "projectCheck s projectId user_id \<noteq> []"
          "15 < currentActive s projectId now + length readers"
    | (c) "projectCheck s projectId user_id \<noteq> []"
          "\<not> 15 < currentActive s projectId now + length readers"
          "projectDetails s projectId = []"
    | (d) p u rest where "projectCheck s projectId user_id \<noteq> []"
          "\<not> 15 < currentActive s projectId now + length readers"
          "projectDetails s projectId = (p, u) # rest"
    by (cases "projectDetails s projectId") auto
  then show ?thesis
  proof cases
    case a
    then show ?thesis by (simp add: createInvitations_def)
  next
    case b
    then show ?thesis by (simp add: createInvitations_def)
  next
    case c
    then show ?thesis by (simp add: createInvitations_def)
  next
    case d
    let ?cx = "invite_context fmt now user_id projectId chapters message expiresAt circleName p u"
    obtain extra where
      e: "reader_invitations (snd (invite_readers send gen ?cx readers 0 [] [] s)) =
            reader_invitations s @ extra"
      using invite_readers_extends by blast
    have "snd (createInvitations send gen fmt now user_id projectId
               chapters message readers expiresAt circleName s) =
          snd (invite_readers send gen ?cx readers 0 [] [] s)"
      using d by (simp add: createInvitations_def split: prod.splits sum.splits)
    with e show ?thesis by auto
  qed
qed

lemma select_access_mem:
  "select_access s token = (inv_row, p) # rest \<Longrightarrow> inv_row \<in> set (reader_invitations s)"
proof -
  assume "select_access s token = (inv_row, p) # rest"
  then have "(inv_row, p) \<in> set (select_access s token)" by simp
  then show ?thesis by (auto simp: select_access_def)
qed

lemma pk_unique:
  "distinct (map ri_id xs) \<Longrightarrow> x \<in> set xs \<Longrightarrow> y \<in> set xs \<Longrightarrow> ri_id x = ri_id y \<Longrightarrow> x = y"
  by (simp add: distinct_map inj_on_def)

lemma resolveAccess_invitations:
  "reader_invitations (snd (resolveAccess now token s)) =
     (case select_access s token of
        [] \<Rightarrow> reader_invitations s
      | (inv_row, p) # _ \<Rightarrow>
          if ri_expires_at inv_row < now then
            reader_invitations (update_invitations (\<lambda>ri. ri_id ri = ri_id inv_row)
               (\<lambda>ri. ri\<lparr>ri_status := Expired\<rparr>) now s)
          else if ri_status inv_row = Revoked then reader_invitations s
          else if ri_status inv_row = Pending then
            reader_invitations (update_invitations (\<lambda>ri. ri_id ri = ri_id inv_row)
               (\<lambda>ri. ri\<lparr>ri_status := Accepted, ri_accepted_at := Some now\<rparr>) now s)
          else reader_invitations s)"
  by (simp add: resolveAccess_def Let_def insert_session_def
           split: list.splits prod.splits)

lemma ex_revoked_select:
  "select_access ex_revoked_store ''tok'' = [(ex_invitation\<lparr>ri_status := Revoked\<rparr>, ex_project)]"
  by (simp add: select_access_def ex_revoked_store_def ex_read_store_def ex_store_def
        ex_invitation_def ex_project_def)

text \<open>
  Claim C1, as stated, fails: ResolveAccess tests expiry before revocation. On a revoked
  invitation whose \<open>expires_at\<close> (100) is in the past at time 200 it answers with the
  expired error and overwrites the status \<open>revoked\<close> with \<open>expired\<close>.
\<close>

theorem revoked_overwritten_counterexample:
  "status_of_token ex_revoked_store ''tok'' = Some Revoked \<and>
   fst (resolveAccess 200 ''tok'' ex_revoked_store) = Inl AccessTokenExpired \<and>
   status_of_token (snd (resolveAccess 200 ''tok'' ex_revoked_store)) ''tok'' = Some Expired"
proof -
  have late: "ri_expires_at (ex_invitation\<lparr>ri_status := Revoked\<rparr>) < 200"
    by (simp add: ex_invitation_def)
  have r: "resolveAccess 200 ''tok'' ex_revoked_store =
      (Inl AccessTokenExpired,
       update_invitations (\<lambda>ri. ri_id ri = ri_id (ex_invitation\<lparr>ri_status := Revoked\<rparr>))
         (\<lambda>ri. ri\<lparr>ri_status := Expired\<rparr>) 200 ex_revoked_store)"
    using late by (simp add: resolveAccess_def ex_revoked_select)
  show ?thesis
    unfolding r
    by (simp add: status_of_token_def select_access_update ex_revoked_select)
qed

text \<open>
  Claim C1, amended. Invitation ids being unique, for every invitation whose status is
  \<open>revoked\<close> every writing request of the router leaves the status \<open>revoked\<close>, with one
  exception: ResolveAccess on that invitation's own token at a time past its \<open>expires_at\<close>,
  which sets the status to \<open>expired\<close>. ResolveAccess on a revoked invitation that is not
  past its \<open>expires_at\<close> answers with the revoked error and leaves the whole store
  unchanged.
\<close>

theorem revoked_terminal_unless_expired:
  assumes pk: "distinct (map ri_id (reader_invitations s))"
      and i: "i < length (reader_invitations s)"
      and rev: "ri_status (reader_invitations s ! i) = Revoked"
  shows "ri_status (reader_invitations (handle send gen fmt now r s) ! i) =
           (if resolves_to s r (reader_invitations s ! i) \<and>
               ri_expires_at (reader_invitations s ! i) < now
            then Expired else Revoked) \<and>
         (resolves_to s (ResolveAccess token) (reader_invitations s ! i) \<and>
          \<not> ri_expires_at (reader_invitations s ! i) < now \<longrightarrow>
            resolveAccess now token s = (Inl AccessRevoked, s))"
proof
  let ?row = "reader_invitations s ! i"
  have mem: "?row \<in> set (reader_invitations s)" using i by simp
  show "resolves_to s (ResolveAccess token) ?row \<and> \<not> ri_expires_at ?row < now \<longrightarrow>
            resolveAccess now token s = (Inl AccessRevoked, s)"
    using rev
    by (auto simp: resolves_to_def resolveAccess_def split: list.splits)
  have keep: "ri_status (reader_invitations s' ! i) = Revoked"
    if "map ri_status (reader_invitations s') = map ri_status (reader_invitations s)" for s'
    using nth_status[OF that i] rev by simp
  show "ri_status (reader_invitations (handle send gen fmt now r s) ! i) =
           (if resolves_to s r ?row \<and> ri_expires_at ?row < now then Expired else Revoked)"
  proof (cases r)
    case (CreateInvitations user_id projectId chapters message readers expiresAt circleName)
    obtain extra where "reader_invitations (snd (createInvitations send gen fmt now user_id
               projectId chapters message readers expiresAt circleName s)) =
            reader_invitations s @ extra"
      using createInvitations_extends by blast
    then show ?thesis
      using i rev by (simp add: CreateInvitations resolves_to_def nth_append)
  next
    case (RevokeInvitation user_id invitationId)
    then show ?thesis
      using i rev
      by (simp add: resolves_to_def revokeInvitation_def Let_def update_invitations_nth)
  next
    case (ResendInvitation user_id invitationId)
    have "reader_invitations (snd (resendInvitation send now user_id invitationId s)) =
          reader_invitations s"
      by (simp add: resendInvitation_def Let_def split: list.splits prod.splits option.splits)
    then show ?thesis
      using rev by (simp add: ResendInvitation resolves_to_def)
  next
    case (RenameCircle user_id projectId chaptersAccessible circleName)
    have "map ri_status (reader_invitations
              (snd (renameCircle now user_id projectId chaptersAccessible circleName s))) =
          map ri_status (reader_invitations s)"
      by (simp add: renameCircle_def Let_def update_invitations_statuses split: option.splits)
    then show ?thesis
      using keep by (simp add: RenameCircle resolves_to_def)
  next
    case (ArchiveCircle user_id projectId chaptersAccessible archived)
    have "map ri_status (reader_invitations
              (snd (archiveCircle now user_id projectId chaptersAccessible archived s))) =
          map ri_status (reader_invitations s)"
      by (simp add: archiveCircle_def Let_def update_invitations_statuses)
    then show ?thesis
      using keep by (simp add: ArchiveCircle resolves_to_def)
  next
    case (ResolveAccess tok)
    show ?thesis
    proof (cases "select_access s tok")
      case Nil
      then show ?thesis
        using rev by (simp add: ResolveAccess resolves_to_def resolveAccess_invitations)
    next
      case (Cons hd_row rest)
      obtain inv_row p where hd_row: "hd_row = (inv_row, p)" by (cases hd_row)
      have sel: "select_access s tok = (inv_row, p) # rest"
        using Cons hd_row by simp
      have inv_mem: "inv_row \<in> set (reader_invitations s)"
        by (rule select_access_mem[OF sel])
      have same_id: "ri_id ?row = ri_id inv_row \<longleftrightarrow> inv_row = ?row"
        using pk_unique[OF pk inv_mem mem] by auto
      have res: "resolves_to s (ResolveAccess tok) ?row \<longleftrightarrow> inv_row = ?row"
        by (simp add: resolves_to_def sel)
      show ?thesis
      proof (cases "inv_row = ?row")
        case True
        then show ?thesis
          using rev i same_id
          by (simp add: ResolveAccess res resolveAccess_invitations sel update_invitations_nth)
      next
        case False
        then show ?thesis
          using rev i same_id
          by (simp add: ResolveAccess res resolveAccess_invitations sel update_invitations_nth)
      qed
    qed
  next
    case (CreateMarker accessToken chapterId sceneId markerId markerType markerText
            highlightedText positionData)
    have "map ri_status (reader_invitations
              (snd (createMarker now accessToken chapterId sceneId markerId markerType markerText
            highlightedText positionData s))) =
          map ri_status (reader_invitations s)"
      by (simp add: createMarker_def Let_def touch_statuses
            split: list.splits option.splits prod.splits)
    then show ?thesis
      using keep by (simp add: CreateMarker resolves_to_def)
  next
    case (UpdateMarker markerId accessToken markerText)
    have "reader_invitations (snd (updateMarker now markerId accessToken markerText s)) =
          reader_invitations s"
      by (simp add: updateMarker_def Let_def split: list.splits)
    then show ?thesis
      using rev by (simp add: UpdateMarker resolves_to_def)
  next
    case (DeleteMarker markerId accessToken)
    have "reader_invitations (snd (deleteMarker markerId accessToken s)) =
          reader_invitations s"
      by (simp add: deleteMarker_def Let_def)
    then show ?thesis
      using rev by (simp add: DeleteMarker resolves_to_def)
  next
    case (ImportMarker user_id markerId)
    have "reader_invitations (snd (importMarker now user_id markerId s)) =
          reader_invitations s"
      by (simp add: importMarker_def mark_imported_def split: list.splits prod.splits)
    then show ?thesis
      using rev by (simp add: ImportMarker resolves_to_def)
  next
    case (UpdateProgress accessToken chapterId completionPercentage)
    have "map ri_status (reader_invitations
              (snd (updateProgress now accessToken chapterId completionPercentage s))) =
          map ri_status (reader_invitations s)"
      by (simp add: updateProgress_def touch_statuses update_sessions_def touch_last_activity_def
            update_invitations_def o_def split: list.splits option.splits)
    then show ?thesis
      using keep by (simp add: UpdateProgress resolves_to_def)
  next
    case (UpdateNotes accessToken new_notes)
    have "map ri_status (reader_invitations
              (snd (updateNotes now accessToken new_notes s))) =
          map ri_status (reader_invitations s)"
      by (simp add: updateNotes_def Let_def update_sessions_def touch_last_activity_def
            update_invitations_def o_def split: list.splits)
    then show ?thesis
      using keep by (simp add: UpdateNotes resolves_to_def)
  qed
qed


theorem revoked_terminal_unless_expired_witness:
  "ri_status (reader_invitations
      (handle (\<lambda>q. None) ex_gen ex_fmt 50 (ResolveAccess ''tok'') ex_revoked_store) ! 0)
     = Revoked \<and>
   resolveAccess 50 ''tok'' ex_revoked_store = (Inl AccessRevoked, ex_revoked_store) \<and>
   ri_status (reader_invitations
      (handle (\<lambda>q. None) ex_gen ex_fmt 200 (ResolveAccess ''tok'') ex_revoked_store) ! 0)
     = Expired \<and>
   ri_status (reader_invitations
      (handle (\<lambda>q. None) ex_gen ex_fmt 200 (RevokeInvitation 7 10) ex_revoked_store) ! 0)
     = Revoked"
proof -
  have pk: "distinct (map ri_id (reader_invitations ex_revoked_store))"
    by (simp add: ex_revoked_rows)
  have i: "0 < length (reader_invitations ex_revoked_store)"
    by (simp add: ex_revoked_rows)
  have rev: "ri_status (reader_invitations ex_revoked_store ! 0) = Revoked"
    by (simp add: ex_revoked_rows)
  have res: "resolves_to ex_revoked_store (ResolveAccess ''tok'')
               (reader_invitations ex_revoked_store ! 0)"
    by (simp add: resolves_to_def ex_revoked_select ex_revoked_rows)
  have other: "\<not> resolves_to ex_revoked_store (RevokeInvitation 7 10)
               (reader_invitations ex_revoked_store ! 0)"
    by (simp add: resolves_to_def)
  have exp: "ri_expires_at (reader_invitations ex_revoked_store ! 0) = 100"
    by (simp add: ex_revoked_rows ex_invitation_def)
  show ?thesis
    using revoked_terminal_unless_expired[OF pk i rev, of "\<lambda>q. None" ex_gen ex_fmt 50
            "ResolveAccess ''tok''" "''tok''"]
          revoked_terminal_unless_expired[OF pk i rev, of "\<lambda>q. None" ex_gen ex_fmt 200
            "ResolveAccess ''tok''" "''tok''"]
          revoked_terminal_unless_expired[OF pk i rev, of "\<lambda>q. None" ex_gen ex_fmt 200
            "RevokeInvitation 7 10" "''tok''"]
          res other rev
    by (simp add: exp)
qed


end
